theory Spec2Isabelle
  imports Complex_Main
begin

section \<open>JavaScript values used by the monitor\<close>

subsection \<open>Strings\<close>

text \<open>
  A JavaScript string is a sequence of UTF-16 code units. The model keeps the code
  units as integers (from 0 to 65535), so that every character the patterns of the source name
  (also the arrow U+2192 and the Unicode white space of \<open>\s\<close>) is a value of the type.
  \<open>utf16\<close> turns an ASCII literal of the theory into such a string.
\<close>

type_synonym jstring = "int list"

definition utf16 :: "string \<Rightarrow> jstring" where
  "utf16 s = map of_char s"

definition truthy :: "jstring option \<Rightarrow> bool" where
  \<comment> \<open>\<open>null\<close> and the empty string are falsy, every other string is truthy\<close>
  "truthy x = (case x of None \<Rightarrow> False | Some s \<Rightarrow> s \<noteq> [])"

definition startsWith :: "jstring \<Rightarrow> jstring \<Rightarrow> bool" where
  "startsWith s p = (take (length p) s = p)"

fun includes_str :: "jstring \<Rightarrow> jstring \<Rightarrow> bool" where
  "includes_str [] p = (p = [])"
| "includes_str (x # xs) p = (startsWith (x # xs) p \<or> includes_str xs p)"

fun indexOfFrom :: "jstring \<Rightarrow> jstring \<Rightarrow> nat \<Rightarrow> int" where
  "indexOfFrom [] p i = (if p = [] then int i else -1)"
| "indexOfFrom (x # xs) p i = (if startsWith (x # xs) p then int i else indexOfFrom xs p (i + 1))"

definition indexOf :: "jstring \<Rightarrow> jstring \<Rightarrow> int" where
  \<comment> \<open>\<open>String.prototype.indexOf\<close>: the first position of \<open>p\<close> in \<open>s\<close>, or \<open>-1\<close>\<close>
  "indexOf s p = indexOfFrom s p 0"

definition substring :: "jstring \<Rightarrow> int \<Rightarrow> jstring" where
  \<comment> \<open>\<open>s.substring(start)\<close>: a negative start counts as 0\<close>
  "substring s start = drop (nat start) s"

definition slice :: "jstring \<Rightarrow> nat \<Rightarrow> nat \<Rightarrow> jstring" where
  "slice s i j = take (j - i) (drop i s)"

definition toLowerCase :: "jstring \<Rightarrow> jstring" where
  \<comment> \<open>The letters \<open>A\<close> to \<open>Z\<close> are mapped to \<open>a\<close> to \<open>z\<close>. Code units outside ASCII are
      left as they are: none of them becomes one of the ASCII letters or digits that
      the callers look for in the result, and no ASCII letter comes from anything else.\<close>
  "toLowerCase s = map (\<lambda>c. if 65 \<le> c \<and> c \<le> 90 then c + 32 else c) s"

subsection \<open>Numbers\<close>

text \<open>
  A JavaScript number is an IEEE 754 double. A finite double is kept as the rational
  number it stands for, next to the two infinities and \<open>NaN\<close>. Every arithmetic
  operation computes the exact result and rounds it to the nearest double, a tie
  going to the even significand, as the hardware does: \<open>roundToDouble\<close> scales the
  value by the unit in the last place of its binade (53 significant bits, the
  smallest exponent that of the subnormals), rounds to a whole number and scales
  back, and \<open>toDouble\<close> turns a result of magnitude \<open>2^1024\<close> or more into an infinity.
  Zero has no sign in the model; the only division by zero in the code below is
  \<open>100 / odds\<close> with \<open>odds\<close> the result of \<open>parseInt\<close> on a string without signs,
  which is the positive zero.
\<close>

datatype number = Val rat | PosInf | NegInf | NaN

definition inf_of_sign :: "bool \<Rightarrow> number" where
  "inf_of_sign negative = (if negative then NegInf else PosInf)"

function bitlen :: "int \<Rightarrow> int" where
  \<comment> \<open>the number of binary digits of a positive whole number\<close>
  "bitlen n = (if n \<le> 0 then 0 else 1 + bitlen (n div 2))"
  by pat_completeness auto
termination
  by (relation "measure nat") auto

declare bitlen.simps [simp del]

definition expo :: "rat \<Rightarrow> int" where
  \<comment> \<open>the binary exponent of a value that is not zero: \<open>2^e \<le> |x| < 2^(e+1)\<close>\<close>
  "expo x =
     (case quotient_of \<bar>x\<bar> of (p, q) \<Rightarrow>
        (let k = bitlen p - bitlen q in if 2 powi k \<le> \<bar>x\<bar> then k else k - 1))"

definition roundHalfEven :: "rat \<Rightarrow> int" where
  \<comment> \<open>the nearest whole number, a tie going to the even one\<close>
  "roundHalfEven m =
     (let f = \<lfloor>m\<rfloor>; r = m - of_int f
      in if r < 1 / 2 then f else if 1 / 2 < r then f + 1 else if even f then f else f + 1)"

definition ulpExponent :: "rat \<Rightarrow> int" where
  \<comment> \<open>the exponent of the unit in the last place: 52 below the exponent of the value,
      and never below that of the subnormal doubles\<close>
  "ulpExponent x = max (expo x - 52) (- 1074)"

definition roundToDouble :: "rat \<Rightarrow> rat" where
  \<comment> \<open>the nearest value with a significand of 53 bits, the exponent not bounded above\<close>
  "roundToDouble x =
     (if x = 0 then 0
      else of_int (roundHalfEven (x / 2 powi ulpExponent x)) * 2 powi ulpExponent x)"

definition toDouble :: "rat \<Rightarrow> number" where
  \<comment> \<open>the double that an exact result is rounded to\<close>
  "toDouble x =
     (let y = roundToDouble x
      in if y \<noteq> 0 \<and> 1024 \<le> expo y then inf_of_sign (x < 0) else Val y)"

fun num_neg :: "number \<Rightarrow> number" where
  "num_neg (Val a) = Val (- a)"
| "num_neg PosInf = NegInf"
| "num_neg NegInf = PosInf"
| "num_neg NaN = NaN"

fun num_add :: "number \<Rightarrow> number \<Rightarrow> number" where
  "num_add NaN _ = NaN"
| "num_add _ NaN = NaN"
| "num_add (Val a) (Val b) = toDouble (a + b)"
| "num_add PosInf NegInf = NaN"
| "num_add NegInf PosInf = NaN"
| "num_add PosInf _ = PosInf"
| "num_add _ PosInf = PosInf"
| "num_add NegInf _ = NegInf"
| "num_add _ NegInf = NegInf"

definition num_sub :: "number \<Rightarrow> number \<Rightarrow> number" where
  "num_sub a b = num_add a (num_neg b)"

fun num_mul :: "number \<Rightarrow> number \<Rightarrow> number" where
  "num_mul NaN _ = NaN"
| "num_mul _ NaN = NaN"
| "num_mul (Val a) (Val b) = toDouble (a * b)"
| "num_mul (Val a) PosInf = (if a = 0 then NaN else inf_of_sign (a < 0))"
| "num_mul (Val a) NegInf = (if a = 0 then NaN else inf_of_sign (0 < a))"
| "num_mul PosInf (Val b) = (if b = 0 then NaN else inf_of_sign (b < 0))"
| "num_mul NegInf (Val b) = (if b = 0 then NaN else inf_of_sign (0 < b))"
| "num_mul PosInf PosInf = PosInf"
| "num_mul NegInf NegInf = PosInf"
| "num_mul PosInf NegInf = NegInf"
| "num_mul NegInf PosInf = NegInf"

fun num_div :: "number \<Rightarrow> number \<Rightarrow> number" where
  "num_div NaN _ = NaN"
| "num_div _ NaN = NaN"
| "num_div (Val a) (Val b) =
     (if b = 0 then (if a = 0 then NaN else inf_of_sign (a < 0)) else toDouble (a / b))"
| "num_div (Val a) _ = Val 0"
| "num_div PosInf (Val b) = inf_of_sign (b < 0)"
| "num_div NegInf (Val b) = inf_of_sign (0 \<le> b)"
| "num_div _ _ = NaN"

fun num_abs :: "number \<Rightarrow> number" where
  "num_abs (Val a) = Val \<bar>a\<bar>"
| "num_abs NaN = NaN"
| "num_abs _ = PosInf"

fun Math_round :: "number \<Rightarrow> number" where
  \<comment> \<open>\<open>Math.round\<close>: the nearest whole number, a tie going up. The result is a double
      whenever the argument is: below \<open>2^52\<close> every whole number is a double, and from
      there on every double is whole.\<close>
  "Math_round (Val a) = Val (of_int \<lfloor>a + 1 / 2\<rfloor>)"
| "Math_round x = x"

fun num_less :: "number \<Rightarrow> number \<Rightarrow> bool" where
  "num_less NaN _ = False"
| "num_less _ NaN = False"
| "num_less (Val a) (Val b) = (a < b)"
| "num_less NegInf NegInf = False"
| "num_less NegInf _ = True"
| "num_less PosInf _ = False"
| "num_less (Val a) PosInf = True"
| "num_less (Val a) NegInf = False"

definition strict_eq :: "number \<Rightarrow> number \<Rightarrow> bool" where
  \<comment> \<open>\<open>===\<close> on numbers: \<open>NaN\<close> is equal to nothing, itself included\<close>
  "strict_eq a b = (a \<noteq> NaN \<and> b \<noteq> NaN \<and> a = b)"

definition num_ge :: "number \<Rightarrow> number \<Rightarrow> bool" where
  \<comment> \<open>\<open>a >= b\<close>\<close>
  "num_ge a b = (num_less b a \<or> strict_eq a b)"

definition isNaN :: "number \<Rightarrow> bool" where
  "isNaN a = (a = NaN)"

subsection \<open>Character classes\<close>

definition isDigit :: "int \<Rightarrow> bool" where
  \<comment> \<open>\<open>\d\<close>\<close>
  "isDigit c = (48 \<le> c \<and> c \<le> 57)"

definition isWordChar :: "int \<Rightarrow> bool" where
  \<comment> \<open>\<open>\w\<close>\<close>
  "isWordChar c = (isDigit c \<or> (65 \<le> c \<and> c \<le> 90) \<or> (97 \<le> c \<and> c \<le> 122) \<or> c = 95)"

definition isSpace :: "int \<Rightarrow> bool" where
  \<comment> \<open>\<open>\s\<close>: the white space and line terminators of ECMAScript\<close>
  "isSpace c = (c = 9 \<or> c = 10 \<or> c = 11 \<or> c = 12 \<or> c = 13 \<or> c = 32 \<or> c = 160 \<or> c = 5760
      \<or> (8192 \<le> c \<and> c \<le> 8202) \<or> c = 8232 \<or> c = 8233 \<or> c = 8239 \<or> c = 8287
      \<or> c = 12288 \<or> c = 65279)"

definition isLineTerminator :: "int \<Rightarrow> bool" where
  "isLineTerminator c = (c = 10 \<or> c = 13 \<or> c = 8232 \<or> c = 8233)"

definition digitVal :: "int \<Rightarrow> int" where
  "digitVal c = c - 48"

definition hexVal :: "int \<Rightarrow> int option" where
  "hexVal c = (if isDigit c then Some (c - 48)
               else if 97 \<le> c \<and> c \<le> 102 then Some (c - 87)
               else if 65 \<le> c \<and> c \<le> 70 then Some (c - 55)
               else None)"

subsection \<open>parseInt and parseFloat\<close>

definition decimalValue :: "jstring \<Rightarrow> int" where
  \<comment> \<open>the value of a string of decimal digits\<close>
  "decimalValue ds = foldl (\<lambda>acc c. 10 * acc + digitVal c) 0 ds"

definition digits :: "jstring \<Rightarrow> bool" where
  \<comment> \<open>a string of one or more decimal digits\<close>
  "digits ds = (ds \<noteq> [] \<and> (\<forall>c\<in>set ds. isDigit c))"

definition hexValue :: "jstring \<Rightarrow> int" where
  "hexValue ds = foldl (\<lambda>acc c. 16 * acc + (case hexVal c of Some v \<Rightarrow> v | None \<Rightarrow> 0)) 0 ds"

definition parseInt :: "jstring \<Rightarrow> number" where
  \<comment> \<open>\<open>parseInt(s)\<close> without a radix: leading white space is skipped, a sign is read,
      a prefix \<open>0x\<close> selects radix 16, and the longest run of digits is read as the
      double nearest to its value; no digit at all gives \<open>NaN\<close>.\<close>
  "parseInt s =
     (let s1 = dropWhile isSpace s;
          negative = (s1 \<noteq> [] \<and> hd s1 = 45);
          s2 = (if s1 \<noteq> [] \<and> (hd s1 = 43 \<or> hd s1 = 45) then tl s1 else s1);
          hex = (startsWith s2 [48, 120] \<or> startsWith s2 [48, 88]);
          ds = (if hex then takeWhile (\<lambda>c. hexVal c \<noteq> None) (drop 2 s2) else takeWhile isDigit s2);
          v = (if hex then hexValue ds else decimalValue ds)
      in if ds = [] then NaN
         else toDouble (if negative then - of_int v else of_int v))"

definition pow10 :: "int \<Rightarrow> rat" where
  "pow10 e = (if 0 \<le> e then 10 ^ nat e else 1 / 10 ^ nat (- e))"

definition parseFloat :: "jstring \<Rightarrow> number" where
  \<comment> \<open>\<open>parseFloat(s)\<close>: leading white space is skipped and the longest prefix that is a
      decimal literal (sign, digits, fraction, exponent, or \<open>Infinity\<close>) is read as the
      nearest double; no such prefix gives \<open>NaN\<close>. A literal beyond the range of the
      doubles, which takes 309 digits or more and which the code reads as an infinity,
      keeps its rounded finite value here: the odds crop, a strip of 420 by 35 pixels,
      holds no such literal.\<close>
  "parseFloat s =
     (let s1 = dropWhile isSpace s;
          negative = (s1 \<noteq> [] \<and> hd s1 = 45);
          s2 = (if s1 \<noteq> [] \<and> (hd s1 = 43 \<or> hd s1 = 45) then tl s1 else s1);
          ip = takeWhile isDigit s2;
          r1 = drop (length ip) s2;
          hasDot = (r1 \<noteq> [] \<and> hd r1 = 46);
          fp = (if hasDot then takeWhile isDigit (tl r1) else []);
          r2 = (if hasDot then drop (length fp) (tl r1) else r1);
          hasE = (r2 \<noteq> [] \<and> (hd r2 = 101 \<or> hd r2 = 69));
          r3 = (if hasE then tl r2 else []);
          eneg = (r3 \<noteq> [] \<and> hd r3 = 45);
          r4 = (if r3 \<noteq> [] \<and> (hd r3 = 43 \<or> hd r3 = 45) then tl r3 else r3);
          ed = takeWhile isDigit r4;
          e = (if eneg then - decimalValue ed else decimalValue ed);
          mant = of_int (decimalValue ip) + of_int (decimalValue fp) * pow10 (- int (length fp));
          v = mant * pow10 e
      in if startsWith s2 (utf16 ''Infinity'') then inf_of_sign negative
         else if ip = [] \<and> fp = [] then NaN
         else Val (roundToDouble (if negative then - v else v)))"

section \<open>Regular expressions\<close>

text \<open>
  The patterns of the source are values of \<open>regex\<close>, and \<open>m\<close> is the backtracking
  matcher of ECMAScript written with continuations: alternatives are tried from left
  to right, a greedy quantifier tries one more iteration before it tries to stop, a
  lazy one the other way round, and the first success is the result. The captures
  map a group number to the start and end of what the group matched last. No pattern
  of the source has a group inside a quantifier, so the reset of captures at the
  start of an iteration is left out.
\<close>

type_synonym caps = "nat \<Rightarrow> (nat \<times> nat) option"
type_synonym cont = "nat \<Rightarrow> caps \<Rightarrow> (nat \<times> caps) option"

datatype regex =
    Cls "int \<Rightarrow> bool"
  | Eps
  | Seq regex regex
  | Alt regex regex
  | Rep nat "nat option" bool regex
  | Grp nat regex
  | Bol
  | Eol
  | WordB

text \<open>
  \<open>rep body fuel lo hi greedy\<close> is the RepeatMatcher of the standard: \<open>lo\<close> and \<open>hi\<close> are
  the iterations still required and still allowed, and an iteration that matches
  the empty string once \<open>lo\<close> is 0 is refused. Every iteration after the required
  ones consumes a code unit, so \<open>lo\<close> plus the number of code units left bounds the
  iterations; that bound is the fuel, and it cannot run out before the text does.
\<close>

fun rep :: "(nat \<Rightarrow> caps \<Rightarrow> cont \<Rightarrow> (nat \<times> caps) option) \<Rightarrow> nat \<Rightarrow> nat \<Rightarrow> nat option \<Rightarrow> bool
              \<Rightarrow> nat \<Rightarrow> caps \<Rightarrow> cont \<Rightarrow> (nat \<times> caps) option" where
  "rep body 0 lo hi greedy i c k = (if lo = 0 then k i c else None)"
| "rep body (Suc fuel) lo hi greedy i c k =
     (if hi = Some 0 then k i c
      else
        let d = (\<lambda>j c'. if lo = 0 \<and> j = i then None
                         else rep body fuel (lo - 1) (map_option (\<lambda>h. h - 1) hi) greedy j c' k)
        in if lo \<noteq> 0 then body i c d
           else if greedy then (case body i c d of Some z \<Rightarrow> Some z | None \<Rightarrow> k i c)
           else (case k i c of Some z \<Rightarrow> Some z | None \<Rightarrow> body i c d))"

fun m :: "jstring \<Rightarrow> regex \<Rightarrow> nat \<Rightarrow> caps \<Rightarrow> cont \<Rightarrow> (nat \<times> caps) option" where
  "m t (Cls p) i c k = (if i < length t \<and> p (t ! i) then k (i + 1) c else None)"
| "m t Eps i c k = k i c"
| "m t (Seq a b) i c k = m t a i c (\<lambda>j c'. m t b j c' k)"
| "m t (Alt a b) i c k = (case m t a i c k of Some z \<Rightarrow> Some z | None \<Rightarrow> m t b i c k)"
| "m t (Rep lo hi greedy a) i c k =
     rep (\<lambda>j c' k'. m t a j c' k') (lo + (length t - i)) lo hi greedy i c k"
| "m t (Grp n a) i c k = m t a i c (\<lambda>j c'. k j (c'(n \<mapsto> (i, j))))"
| "m t Bol i c k = (if i = 0 then k i c else None)"
| "m t Eol i c k = (if i = length t then k i c else None)"
| "m t WordB i c k =
     (let a = (0 < i \<and> i - 1 < length t \<and> isWordChar (t ! (i - 1)));
          b = (i < length t \<and> isWordChar (t ! i))
      in if a \<noteq> b then k i c else None)"

definition matchAt :: "regex \<Rightarrow> jstring \<Rightarrow> nat \<Rightarrow> (nat \<times> caps) option" where
  \<comment> \<open>a match that starts at position \<open>i\<close>: its end and its captures\<close>
  "matchAt r t i = m t r i Map.empty (\<lambda>j c. Some (j, c))"

fun search :: "regex \<Rightarrow> jstring \<Rightarrow> nat \<Rightarrow> nat \<Rightarrow> (nat \<times> nat \<times> caps) option" where
  "search r t 0 i = None"
| "search r t (Suc n) i =
     (case matchAt r t i of
        Some (j, c) \<Rightarrow> Some (i, j, c)
      | None \<Rightarrow> search r t n (i + 1))"

definition re_exec :: "regex \<Rightarrow> jstring \<Rightarrow> nat \<Rightarrow> (nat \<times> nat \<times> caps) option" where
  \<comment> \<open>the leftmost match that starts at \<open>i\<close> or later: start, end, captures\<close>
  "re_exec r t i = search r t (length t + 1 - i) i"

record jmatch =
  whole :: jstring
  groups :: "nat \<Rightarrow> jstring"
  index :: nat
  endIndex :: nat

definition mkMatch :: "jstring \<Rightarrow> nat \<times> nat \<times> caps \<Rightarrow> jmatch" where
  \<comment> \<open>the match array: element 0 is the whole match, element \<open>n\<close> group \<open>n\<close>. Every group
      that the code below reads is part of every match of its pattern; a group that
      took no part reads as the empty string here.\<close>
  "mkMatch t r =
     (case r of (i, j, c) \<Rightarrow>
        \<lparr> whole = slice t i j,
          groups = (\<lambda>n. case c n of None \<Rightarrow> [] | Some (a, b) \<Rightarrow> slice t a b),
          index = i, endIndex = j \<rparr>)"

definition match1 :: "regex \<Rightarrow> jstring \<Rightarrow> jmatch option" where
  \<comment> \<open>\<open>text.match(re)\<close> for a pattern without the \<open>g\<close> flag\<close>
  "match1 r t = map_option (mkMatch t) (re_exec r t 0)"

fun matchesFrom :: "regex \<Rightarrow> jstring \<Rightarrow> nat \<Rightarrow> nat \<Rightarrow> jmatch list" where
  "matchesFrom r t 0 i = []"
| "matchesFrom r t (Suc n) i =
     (case re_exec r t i of
        None \<Rightarrow> []
      | Some (s, e, c) \<Rightarrow> mkMatch t (s, e, c) # matchesFrom r t n (if e = s then e + 1 else e))"

definition matchAll :: "regex \<Rightarrow> jstring \<Rightarrow> jmatch list" where
  \<comment> \<open>all matches of a pattern with the \<open>g\<close> flag, from left to right: the search resumes
      at the end of the last match, one further on after an empty match. Each round
      starts further right than the one before, so \<open>length t + 1\<close> rounds are enough.\<close>
  "matchAll r t = matchesFrom r t (length t + 1) 0"

definition test :: "regex \<Rightarrow> jstring \<Rightarrow> bool" where
  "test r t = (re_exec r t 0 \<noteq> None)"

fun replaceFrom :: "jstring \<Rightarrow> nat \<Rightarrow> jmatch list \<Rightarrow> (jmatch \<Rightarrow> jstring) \<Rightarrow> jstring" where
  "replaceFrom t p [] f = drop p t"
| "replaceFrom t p (x # xs) f = slice t p (index x) @ f x @ replaceFrom t (endIndex x) xs f"

definition replaceAll :: "regex \<Rightarrow> (jmatch \<Rightarrow> jstring) \<Rightarrow> jstring \<Rightarrow> jstring" where
  \<comment> \<open>\<open>text.replace(re, fn)\<close> for a pattern with the \<open>g\<close> flag\<close>
  "replaceAll r f t = replaceFrom t 0 (matchAll r t) f"

definition replaceFirst :: "regex \<Rightarrow> (jmatch \<Rightarrow> jstring) \<Rightarrow> jstring \<Rightarrow> jstring" where
  \<comment> \<open>\<open>text.replace(re, fn)\<close> for a pattern without the \<open>g\<close> flag\<close>
  "replaceFirst r f t = (case match1 r t of None \<Rightarrow> t | Some x \<Rightarrow> replaceFrom t 0 [x] f)"

definition replaceString :: "jstring \<Rightarrow> jstring \<Rightarrow> jstring \<Rightarrow> jstring" where
  \<comment> \<open>\<open>s.replace(p, q)\<close> for a string \<open>p\<close>: the first occurrence only\<close>
  "replaceString s p q =
     (let i = indexOf s p
      in if i < 0 then s else take (nat i) s @ q @ drop (nat i + length p) s)"



subsection \<open>Writing patterns\<close>

definition chr :: "char \<Rightarrow> regex" where
  "chr x = Cls (\<lambda>c. c = of_char x)"

definition chrI :: "char \<Rightarrow> regex" where
  \<comment> \<open>an ASCII character under the \<open>i\<close> flag: a letter matches in both cases, and no code
      unit outside ASCII is folded onto an ASCII letter\<close>
  "chrI x = Cls (\<lambda>c. toLowerCase [c] = toLowerCase [of_char x])"

definition lit :: "string \<Rightarrow> regex" where
  "lit s = foldr (\<lambda>x r. Seq (chr x) r) s Eps"

definition litI :: "string \<Rightarrow> regex" where
  "litI s = foldr (\<lambda>x r. Seq (chrI x) r) s Eps"

definition oneOf :: "jstring \<Rightarrow> regex" where
  \<comment> \<open>a class given by its members\<close>
  "oneOf xs = Cls (\<lambda>c. List.member xs c)"

definition star :: "regex \<Rightarrow> regex" where
  "star r = Rep 0 None True r"

definition lazyStar :: "regex \<Rightarrow> regex" where
  "lazyStar r = Rep 0 None False r"

definition plus1 :: "regex \<Rightarrow> regex" where
  "plus1 r = Rep 1 None True r"

definition opt :: "regex \<Rightarrow> regex" where
  "opt r = Rep 0 (Some 1) True r"

definition times :: "nat \<Rightarrow> nat \<Rightarrow> regex \<Rightarrow> regex" where
  "times lo hi r = Rep lo (Some hi) True r"

fun seqs :: "regex list \<Rightarrow> regex" where
  "seqs [] = Eps"
| "seqs [r] = r"
| "seqs (r # rs) = Seq r (seqs rs)"

definition digit :: regex where
  "digit = Cls isDigit"

definition space :: regex where
  "space = Cls isSpace"

definition wordc :: regex where
  "wordc = Cls isWordChar"

definition dot :: regex where
  "dot = Cls (\<lambda>c. \<not> isLineTerminator c)"

definition anyc :: regex where
  \<comment> \<open>\<open>[\s\S]\<close>\<close>
  "anyc = Cls (\<lambda>c. True)"

definition sign :: regex where
  \<comment> \<open>\<open>[+\-]\<close>\<close>
  "sign = oneOf (utf16 ''+-'')"

definition arrow :: int where
  \<comment> \<open>the rightwards arrow U+2192\<close>
  "arrow = 8594"

definition raquo :: int where
  \<comment> \<open>the right-pointing double angle quotation mark U+00BB\<close>
  "raquo = 187"

definition withSign :: "jstring \<Rightarrow> jstring" where
  \<comment> \<open>\<open>x.startsWith('+') || x.startsWith('-') ? x : `+${x}`\<close>\<close>
  "withSign x = (if startsWith x (utf16 ''+'') \<or> startsWith x (utf16 ''-'') then x else utf16 ''+'' @ x)"

section \<open>The boost calculator (utils/boostCalculator)\<close>

definition stripSigns :: "jstring \<Rightarrow> jstring" where
  \<comment> \<open>\<open>s.replace(/[+\-]/g, '')\<close>: every \<open>+\<close> and \<open>-\<close> is deleted\<close>
  "stripSigns s = filter (\<lambda>c. c \<noteq> 43 \<and> c \<noteq> 45) s"

definition americanToDecimal :: "jstring \<Rightarrow> number" where
  "americanToDecimal americanOdds =
     (let odds = parseInt (stripSigns americanOdds)
      in if startsWith americanOdds (utf16 ''+'') then num_add (num_div odds (Val 100)) (Val 1)
         else if startsWith americanOdds (utf16 ''-'') then num_add (num_div (Val 100) odds) (Val 1)
         else num_add (num_div odds (Val 100)) (Val 1))"

definition calculateActualBoostPercentage :: "jstring \<Rightarrow> jstring \<Rightarrow> number" where
  \<comment> \<open>Nothing in the body throws on strings, so the \<open>catch\<close> branch is never taken.\<close>
  "calculateActualBoostPercentage preBoostOdds postBoostOdds =
     (let preDecimal = americanToDecimal preBoostOdds;
          postDecimal = americanToDecimal postBoostOdds;
          boostPercentage = num_mul (num_div (num_sub postDecimal preDecimal) preDecimal) (Val 100)
      in num_div (Math_round (num_mul boostPercentage (Val 100))) (Val 100))"

record BoostCalculation =
  actualBoostPercentage :: number
  detectedBoostPercentage :: number
  discrepancy :: number
  isSignificantDiscrepancy :: bool
  calcWasOdds :: jstring
  calcNowOdds :: jstring

definition verifyBoostAccuracy ::
    "number \<Rightarrow> jstring \<Rightarrow> jstring \<Rightarrow> number option \<Rightarrow> BoostCalculation" where
  \<comment> \<open>The last argument is \<open>None\<close> when the caller leaves the threshold out; the
      parameter then takes its default 10.\<close>
  "verifyBoostAccuracy detectedPercentage preBoostOdds postBoostOdds threshold =
     (let discrepancyThreshold = (case threshold of None \<Rightarrow> Val 10 | Some x \<Rightarrow> x);
          actual = calculateActualBoostPercentage preBoostOdds postBoostOdds;
          disc = num_abs (num_sub actual detectedPercentage)
      in \<lparr> actualBoostPercentage = actual,
           detectedBoostPercentage = detectedPercentage,
           discrepancy = disc,
           isSignificantDiscrepancy = num_ge disc discrepancyThreshold,
           calcWasOdds = preBoostOdds,
           calcNowOdds = postBoostOdds \<rparr>)"

section \<open>Odds comparison from the odds crop (text-detection, detectOddsComparison)\<close>

record OddsComparison =
  originalOdds :: "jstring option"
  boostedOdds :: "jstring option"
  detectedText :: "jstring option"

definition signedNumber :: regex where
  \<comment> \<open>\<open>[+-]?\d+\<close>\<close>
  "signedNumber = Seq (opt sign) (plus1 digit)"

definition oddsPattern1 :: regex where
  \<comment> \<open>\<open>/Was\s*([+-]?\d+)\s*[>\<rightarrow>]\s*Now\s*([+-]?\d+)/i\<close>\<close>
  "oddsPattern1 =
     seqs [litI ''Was'', star space, Grp 1 signedNumber, star space, oneOf [62, arrow],
           star space, litI ''Now'', star space, Grp 2 signedNumber]"

definition oddsPattern2 :: regex where
  \<comment> \<open>\<open>/Was\s*([+-]?\d+)\s*>\s*Now\s*([+-]?\d+)/i\<close>\<close>
  "oddsPattern2 =
     seqs [litI ''Was'', star space, Grp 1 signedNumber, star space, chrI CHR ''>'',
           star space, litI ''Now'', star space, Grp 2 signedNumber]"

definition oddsPattern3 :: regex where
  \<comment> \<open>\<open>/([+-]?\d+)\s*[>\<rightarrow>]\s*([+-]?\d+)/\<close>\<close>
  "oddsPattern3 =
     seqs [Grp 1 signedNumber, star space, oneOf [62, arrow], star space, Grp 2 signedNumber]"

definition oddsPattern4 :: regex where
  \<comment> \<open>\<open>/Was\s*([+-]?\d+)[\s\S]*?Now\s*([+-]?\d+)/i\<close>\<close>
  "oddsPattern4 =
     seqs [litI ''Was'', star space, Grp 1 signedNumber, lazyStar anyc,
           litI ''Now'', star space, Grp 2 signedNumber]"

definition oddsPattern5 :: regex where
  \<comment> \<open>\<open>/Was\s*\+?(\d+)[\s\S]*?Now\s*\+?(\d+)/i\<close>\<close>
  "oddsPattern5 =
     seqs [litI ''Was'', star space, opt (chrI CHR ''+''), Grp 1 (plus1 digit), lazyStar anyc,
           litI ''Now'', star space, opt (chrI CHR ''+''), Grp 2 (plus1 digit)]"

definition oddsPatterns :: "regex list" where
  "oddsPatterns = [oddsPattern1, oddsPattern2, oddsPattern3, oddsPattern4, oddsPattern5]"

definition individualOddsPattern :: regex where
  \<comment> \<open>\<open>/([+-]?\d{3,4})/g\<close>\<close>
  "individualOddsPattern = Grp 1 (Seq (opt sign) (times 3 4 digit))"

fun firstMatch :: "regex list \<Rightarrow> jstring \<Rightarrow> jmatch option" where
  \<comment> \<open>the loop over the patterns: the first pattern that matches decides\<close>
  "firstMatch [] t = None"
| "firstMatch (r # rs) t = (case match1 r t of Some x \<Rightarrow> Some x | None \<Rightarrow> firstMatch rs t)"

definition detectOddsComparison :: "jstring option \<Rightarrow> OddsComparison" where
  \<comment> \<open>The argument is the text that the OCR engine reads in the odds crop, \<open>None\<close> when
      the image processing or the OCR throws (the \<open>catch\<close> branch).\<close>
  "detectOddsComparison ocr =
     (case ocr of
        None \<Rightarrow> \<lparr> originalOdds = None, boostedOdds = None, detectedText = None \<rparr>
      | Some text \<Rightarrow>
          (case firstMatch oddsPatterns text of
             Some match \<Rightarrow>
               \<lparr> originalOdds = Some (withSign (groups match 1)),
                 boostedOdds = Some (withSign (groups match 2)),
                 detectedText = Some text \<rparr>
           | None \<Rightarrow>
               (case matchAll individualOddsPattern text of
                  a # b # rest \<Rightarrow>
                    \<lparr> originalOdds = Some (withSign (groups a 1)),
                      boostedOdds = Some (withSign (groups b 1)),
                      detectedText = Some text \<rparr>
                | _ \<Rightarrow> \<lparr> originalOdds = None, boostedOdds = None, detectedText = Some text \<rparr>)))"

section \<open>The reconciler (the application's main module)\<close>

text \<open>
  The module-level variables of the source are the fields of \<open>monitor\<close>. What the
  module hands to its collaborators is appended to \<open>sent\<close>, oldest first: the odds
  test message of every analysed cycle, the boost alert that \<open>sendNotification\<close>
  passes to the Discord bot, the two system alerts of the health watches, and the
  request for an immediate capture after an extreme boost. The image files that a
  cycle writes, the ``See all'' analysis of the details crop and the display strings
  of the messages are left out. A cycle, and each watch, runs as one step: the
  interleaving of two callbacks at an \<open>await\<close> is not modelled.
\<close>

record BoostData =
  percentage :: number
  wasOdds :: "jstring option"
  nowOdds :: "jstring option"
  timestamp :: int

datatype outbound =
    OddsTest "jstring option" "jstring option"
  | BoostAlert number "jstring option" "jstring option"
  | NoNewBoostAlert int
  | NumberFailureAlert nat
  | ImmediateCapture

record monitor =
  totalBoostsDetected :: nat
  lastBoostPercentage :: "number option"
  lastUniqueBoostTime :: int
  noNewBoostNotified :: bool
  consecutiveNumberFailures :: nat
  numberFailureNotified :: bool
  lastBoostData :: "BoostData option"
  lastNotificationTime :: int
  lastDetectedPercentage :: number
  detectedBoostPercentageVar :: "number option"
  detectedPreBoostOdds :: "jstring option"
  detectedPostBoostOdds :: "jstring option"
  sent :: "outbound list"

definition NO_NEW_BOOST_TIMEOUT :: int where
  "NO_NEW_BOOST_TIMEOUT = 12 * 60 * 1000"

definition MAX_NUMBER_FAILURES :: nat where
  "MAX_NUMBER_FAILURES = 6"

definition startup :: "int \<Rightarrow> monitor" where
  \<comment> \<open>the variables as the module initialises them; the argument is \<open>Date.now()\<close> then\<close>
  "startup now =
     \<lparr> totalBoostsDetected = 0, lastBoostPercentage = None,
       lastUniqueBoostTime = now, noNewBoostNotified = False,
       consecutiveNumberFailures = 0, numberFailureNotified = False,
       lastBoostData = None, lastNotificationTime = 0, lastDetectedPercentage = Val 0,
       detectedBoostPercentageVar = None, detectedPreBoostOdds = None,
       detectedPostBoostOdds = None, sent = [] \<rparr>"

definition isDifferentBoost ::
    "monitor \<Rightarrow> number \<Rightarrow> jstring option \<Rightarrow> jstring option \<Rightarrow> bool" where
  "isDifferentBoost s currentPercentage currentWasOdds currentNowOdds =
     (case lastBoostData s of
        None \<Rightarrow> True
      | Some l \<Rightarrow>
          (let percentageChanged = (\<not> strict_eq (percentage l) currentPercentage);
               wasOddsChanged = (wasOdds l \<noteq> currentWasOdds);
               nowOddsChanged = (nowOdds l \<noteq> currentNowOdds)
           in if percentageChanged then True
              else if wasOddsChanged then True
              else if nowOddsChanged then True
              else False))"

definition checkNoNewBoost :: "int \<Rightarrow> monitor \<Rightarrow> monitor" where
  \<comment> \<open>the first argument is \<open>Date.now()\<close> at the check\<close>
  "checkNoNewBoost now s =
     (let timeSinceLastUniqueBoost = now - lastUniqueBoostTime s
      in if NO_NEW_BOOST_TIMEOUT < timeSinceLastUniqueBoost \<and> \<not> noNewBoostNotified s
         then s\<lparr> sent := sent s @ [NoNewBoostAlert timeSinceLastUniqueBoost],
                 noNewBoostNotified := True \<rparr>
         else s)"

definition checkNumberFailures :: "monitor \<Rightarrow> monitor" where
  "checkNumberFailures s =
     (if MAX_NUMBER_FAILURES \<le> consecutiveNumberFailures s \<and> \<not> numberFailureNotified s
      then s\<lparr> sent := sent s @ [NumberFailureAlert (consecutiveNumberFailures s)],
              numberFailureNotified := True \<rparr>
      else s)"

definition js_or :: "jstring option \<Rightarrow> jstring option \<Rightarrow> jstring option" where
  \<comment> \<open>\<open>a || b\<close>\<close>
  "js_or a b = (if truthy a then a else b)"

definition sendNotification ::
    "number \<Rightarrow> jstring option \<Rightarrow> jstring option \<Rightarrow> monitor \<Rightarrow> monitor" where
  \<comment> \<open>The alert goes to the bot with the odds of the observation, the module's last
      detected odds standing in for a missing one; then the statistics are updated.\<close>
  "sendNotification p dataWasOdds dataNowOdds s =
     (let preBoostOdds = js_or dataWasOdds (detectedPreBoostOdds s);
          postBoostOdds = js_or dataNowOdds (detectedPostBoostOdds s)
      in s\<lparr> sent := sent s @ [BoostAlert p preBoostOdds (js_or postBoostOdds None)],
            totalBoostsDetected := totalBoostsDetected s + 1,
            lastBoostPercentage := Some p \<rparr>)"

record payload =
  cropFailed :: bool
  cropTooSmall :: bool
  boostImage :: jstring
  oddsOcr :: "jstring option"
  clockObserved :: int
  clockUnique :: int
  clockNotified :: int

text \<open>
  \<open>oddsOcr\<close> is what the OCR engine reads in the grayscale odds crop of the payload.
  The three clock fields are the readings of \<open>Date.now()\<close> in the handler, in the
  order of the source: for the timestamp of the observation, for
  \<open>lastUniqueBoostTime\<close>, and for \<open>lastNotificationTime\<close>.
\<close>

definition keepNumeric :: "jstring \<Rightarrow> jstring" where
  \<comment> \<open>\<open>s.replace(/[^0-9.-]/g, '')\<close>: only digits, \<open>.\<close> and \<open>-\<close> stay\<close>
  "keepNumeric s = filter (\<lambda>c. isDigit c \<or> c = 46 \<or> c = 45) s"

definition boostPercentage :: "OddsComparison \<Rightarrow> number option" where
  \<comment> \<open>the variable \<open>percentage\<close> of the handler: \<open>((now-was)/was)*100\<close>, one decimal\<close>
  "boostPercentage oc =
     (case (originalOdds oc, boostedOdds oc) of
        (Some original, Some boosted) \<Rightarrow>
          if original \<noteq> [] \<and> boosted \<noteq> [] then
            (let wasOddsValue = parseFloat (keepNumeric original);
                 nowOddsValue = parseFloat (keepNumeric boosted)
             in if \<not> isNaN wasOddsValue \<and> \<not> isNaN nowOddsValue \<and> \<not> strict_eq wasOddsValue (Val 0)
                then
                  (let calculatedPercentage =
                         num_mul (num_div (num_sub nowOddsValue wasOddsValue) wasOddsValue) (Val 100)
                   in Some (num_div (Math_round (num_mul calculatedPercentage (Val 10))) (Val 10)))
                else None)
          else None
      | _ \<Rightarrow> None)"

definition reconcile :: "payload \<Rightarrow> number \<Rightarrow> monitor \<Rightarrow> monitor" where
  \<comment> \<open>the branch \<open>percentage !== null\<close> of the handler\<close>
  "reconcile d p s =
     (let wasOdds' = detectedPreBoostOdds s;
          nowOdds' = detectedPostBoostOdds s;
          currentBoostData = \<lparr> percentage = p, wasOdds = wasOdds', nowOdds = nowOdds',
                               timestamp = clockObserved d \<rparr>;
          isNewBoost = isDifferentBoost s p wasOdds' nowOdds'
      in if isNewBoost then
           (let s1 = s\<lparr> consecutiveNumberFailures := 0, numberFailureNotified := False,
                        lastUniqueBoostTime := clockUnique d, noNewBoostNotified := False \<rparr>;
                isExtremeBoost = num_less (Val 49) p;
                s2 = sendNotification p wasOdds' nowOdds' s1;
                s3 = s2\<lparr> lastNotificationTime := clockNotified d, lastDetectedPercentage := p,
                         lastBoostData := Some currentBoostData \<rparr>
            in if isExtremeBoost then s3\<lparr> sent := sent s3 @ [ImmediateCapture] \<rparr> else s3)
         else s\<lparr> consecutiveNumberFailures := 0, numberFailureNotified := False \<rparr>)"

definition screenData :: "payload \<Rightarrow> monitor \<Rightarrow> monitor" where
  \<comment> \<open>the handler of the \<open>screenData\<close> event: one capture cycle\<close>
  "screenData d s =
     (if cropFailed d then s\<lparr> consecutiveNumberFailures := consecutiveNumberFailures s + 1 \<rparr>
      else if cropTooSmall d then s\<lparr> consecutiveNumberFailures := consecutiveNumberFailures s + 1 \<rparr>
      else
        (let oddsComparison = detectOddsComparison (oddsOcr d);
             percentage' = boostPercentage oddsComparison;
             s1 = s\<lparr> detectedPreBoostOdds := originalOdds oddsComparison,
                      detectedPostBoostOdds := boostedOdds oddsComparison,
                      detectedBoostPercentageVar := percentage',
                      sent := sent s @ [OddsTest (originalOdds oddsComparison)
                                                 (boostedOdds oddsComparison)] \<rparr>
         in case percentage' of
              Some p \<Rightarrow> reconcile d p s1
            | None \<Rightarrow> s1\<lparr> consecutiveNumberFailures := consecutiveNumberFailures s1 + 1 \<rparr>))"

subsection \<open>Runs of the monitor\<close>

datatype event = ScreenData payload | NoNewBoostTick int | NumberFailureTick

fun step :: "event \<Rightarrow> monitor \<Rightarrow> monitor" where
  "step (ScreenData d) s = screenData d s"
| "step (NoNewBoostTick now) s = checkNoNewBoost now s"
| "step NumberFailureTick s = checkNumberFailures s"

definition run :: "event list \<Rightarrow> monitor \<Rightarrow> monitor" where
  "run es s = foldl (\<lambda>s' e. step e s') s es"

definition cyclePercentage :: "payload \<Rightarrow> number option" where
  \<comment> \<open>the percentage that a cycle obtains, \<open>None\<close> when it obtains none\<close>
  "cyclePercentage d =
     (if cropFailed d \<or> cropTooSmall d then None
      else boostPercentage (detectOddsComparison (oddsOcr d)))"

definition newBoostCycle :: "payload \<Rightarrow> monitor \<Rightarrow> bool" where
  \<comment> \<open>the cycle is a new-boost transition: it obtains a percentage and
      \<open>isDifferentBoost\<close> answers true for its observation\<close>
  "newBoostCycle d s =
     (case cyclePercentage d of
        None \<Rightarrow> False
      | Some p \<Rightarrow>
          isDifferentBoost s p (originalOdds (detectOddsComparison (oddsOcr d)))
                               (boostedOdds (detectOddsComparison (oddsOcr d))))"

fun isBoostAlert :: "outbound \<Rightarrow> bool" where
  "isBoostAlert (BoostAlert p w n) = True"
| "isBoostAlert _ = False"

fun isNoNewBoostAlert :: "outbound \<Rightarrow> bool" where
  "isNoNewBoostAlert (NoNewBoostAlert t) = True"
| "isNoNewBoostAlert _ = False"

fun isNumberFailureAlert :: "outbound \<Rightarrow> bool" where
  "isNumberFailureAlert (NumberFailureAlert n) = True"
| "isNumberFailureAlert _ = False"

fun isNoNewBoostTick :: "event \<Rightarrow> bool" where
  "isNoNewBoostTick (NoNewBoostTick t) = True"
| "isNoNewBoostTick _ = False"

fun tickAfter :: "int \<Rightarrow> event \<Rightarrow> bool" where
  \<comment> \<open>a stale-boost check is made later than the given time; other events pass\<close>
  "tickAfter t0 (NoNewBoostTick t) = (t0 < t)"
| "tickAfter t0 _ = True"

fun noTransition :: "monitor \<Rightarrow> event list \<Rightarrow> bool" where
  \<comment> \<open>no cycle of the run is a new-boost transition\<close>
  "noTransition s [] = True"
| "noTransition s (ScreenData d # es) = (\<not> newBoostCycle d s \<and> noTransition (screenData d s) es)"
| "noTransition s (e # es) = noTransition (step e s) es"


definition countSent :: "(outbound \<Rightarrow> bool) \<Rightarrow> monitor \<Rightarrow> nat" where
  \<comment> \<open>how many messages of a kind the module has sent so far\<close>
  "countSent P s = length (filter P (sent s))"

definition exampleCycle :: "jstring \<Rightarrow> payload" where
  \<comment> \<open>a cycle whose crops are usable and whose odds crop reads as the given text\<close>
  "exampleCycle t =
     \<lparr> cropFailed = False, cropTooSmall = False, boostImage = [], oddsOcr = Some t,
       clockObserved = 5000, clockUnique = 5001, clockNotified = 5002 \<rparr>"

section \<open>The percentage parser (text-detection, parsePercentageFromText)\<close>

definition oneOfI :: "jstring \<Rightarrow> regex" where
  \<comment> \<open>a class given by its members under the \<open>i\<close> flag\<close>
  "oneOfI xs = Cls (\<lambda>c. List.member (toLowerCase xs) (hd (toLowerCase [c])))"













section \<open>Odds from the odds crop (text-detection, detectOdds)\<close>

text \<open>
  \<open>detectOdds\<close> reads the odds crop with the OCR engine, repairs some misreadings in the
  text and then runs its detection stages in the order of the source. A stage either
  returns the pair at once or hands \<open>preBoost\<close> and \<open>postBoost\<close> on to the next stage.
  The loop over \<open>numberPatterns\<close> only writes to the log and is left out, as are all
  other log lines.
\<close>

datatype detection =
    Return "jstring option" "jstring option"
  | Go "jstring option" "jstring option"

definition andThen ::
    "detection \<Rightarrow> (jstring option \<Rightarrow> jstring option \<Rightarrow> detection) \<Rightarrow> detection" where
  "andThen d stage = (case d of Return a b \<Rightarrow> Return a b | Go a b \<Rightarrow> stage a b)"

definition matchGlobal :: "regex \<Rightarrow> jstring \<Rightarrow> jstring list option" where
  \<comment> \<open>\<open>text.match(re)\<close> for a pattern with the \<open>g\<close> flag: the matched strings, \<open>null\<close> when
      there is none\<close>
  "matchGlobal r t = (case matchAll r t of [] \<Rightarrow> None | x # xs \<Rightarrow> Some (map whole (x # xs)))"

definition odds35 :: regex where
  \<comment> \<open>\<open>[+\-]?\d{3,5}\<close>\<close>
  "odds35 = Seq (opt sign) (times 3 5 digit)"

definition signed35 :: regex where
  \<comment> \<open>\<open>[+\-]\d{3,5}\<close>\<close>
  "signed35 = Seq sign (times 3 5 digit)"

definition digits35 :: regex where
  \<comment> \<open>\<open>\d{3,5}\<close>\<close>
  "digits35 = times 3 5 digit"

subsection \<open>Repairs of the OCR text\<close>

definition wosFivePattern :: regex where
  \<comment> \<open>\<open>/Wos\s*([+\-]?\d{3,5})\s+5(\d{3})/g\<close>\<close>
  "wosFivePattern =
     seqs [lit ''Wos'', star space, Grp 1 odds35, plus1 space, chr CHR ''5'', Grp 2 (times 3 3 digit)]"

definition sixPattern :: regex where
  \<comment> \<open>\<open>/\b(\d)6(\d{2,3})\b/g\<close>\<close>
  "sixPattern = seqs [WordB, Grp 1 digit, chr CHR ''6'', Grp 2 (times 2 3 digit), WordB]"

definition letterDigitsPattern :: "char \<Rightarrow> regex" where
  \<comment> \<open>\<open>/([+\-]?)I(\d{3,4})/g\<close> and \<open>/([+\-]?)Z(\d{3,4})/g\<close>\<close>
  "letterDigitsPattern x = seqs [Grp 1 (opt sign), chr x, Grp 2 (times 3 4 digit)]"

definition cleanText :: "jstring \<Rightarrow> jstring" where
  "cleanText text =
     replaceAll (letterDigitsPattern CHR ''Z'') (\<lambda>x. groups x 1 @ utf16 ''2'' @ groups x 2)
       (replaceAll (letterDigitsPattern CHR ''I'') (\<lambda>x. groups x 1 @ utf16 ''1'' @ groups x 2)
         (replaceAll sixPattern
            (\<lambda>x. if length (groups x 2) = 2 \<and> groups x 2 = utf16 ''00''
                 then groups x 1 @ utf16 ''0'' @ groups x 2 else whole x)
           (replaceAll wosFivePattern
              (\<lambda>x. if groups x 2 = utf16 ''578''
                   then replaceString (whole x) (utf16 ''5'' @ groups x 2) (utf16 ''8'' @ groups x 2)
                   else whole x)
              text)))"

subsection \<open>Direct odds\<close>

definition directOddsPattern :: regex where
  \<comment> \<open>\<open>/([+\-]\d{3,5})/\<close>\<close>
  "directOddsPattern = Grp 1 signed35"

fun firstOther :: "jstring \<Rightarrow> jstring list \<Rightarrow> jstring option" where
  \<comment> \<open>the loop over \<open>allOddsMatches\<close>: the first match that, with its sign, is not
      \<open>preBoost\<close>\<close>
  "firstOther preBoost [] = None"
| "firstOther preBoost (x # xs) =
     (let cleanMatch = withSign x
      in if cleanMatch \<noteq> preBoost then Some cleanMatch else firstOther preBoost xs)"

definition directOdds :: "jstring \<Rightarrow> jstring option \<Rightarrow> jstring option \<Rightarrow> detection" where
  "directOdds t preBoost postBoost =
     (case match1 directOddsPattern t of
        Some directOddsMatch \<Rightarrow>
          if \<not> truthy preBoost \<and> \<not> truthy postBoost then
            (let oddsValue = whole directOddsMatch;
                 allOddsMatches = (case matchGlobal odds35 t of None \<Rightarrow> [] | Some xs \<Rightarrow> xs)
             in Go (Some oddsValue)
                   (case firstOther oddsValue allOddsMatches of
                      Some cleanMatch \<Rightarrow> Some cleanMatch
                    | None \<Rightarrow> postBoost))
          else Go preBoost postBoost
      | None \<Rightarrow> Go preBoost postBoost)"

subsection \<open>Was and Now with a separator\<close>

definition wasNowSeparatorPattern :: regex where
  \<comment> \<open>\<open>/Was\s*([+\-]?\d{3,5})\s*[>\<rightarrow>\<guillemotright>]\s*Now\s*([+\-]?\d{3,5})/i\<close>\<close>
  "wasNowSeparatorPattern =
     seqs [litI ''Was'', star space, Grp 1 odds35, star space, oneOf [62, arrow, raquo],
           star space, litI ''Now'', star space, Grp 2 odds35]"

definition wasNowSeparator :: "jstring \<Rightarrow> jstring option \<Rightarrow> jstring option \<Rightarrow> detection" where
  "wasNowSeparator t preBoost postBoost =
     (case match1 wasNowSeparatorPattern t of
        Some x \<Rightarrow> Return (Some (withSign (groups x 1))) (Some (withSign (groups x 2)))
      | None \<Rightarrow> Go preBoost postBoost)"

subsection \<open>Was, then Now or the next odds\<close>

definition simpleWasPattern :: regex where
  \<comment> \<open>\<open>/Was\s*([+\-]?\d{3,5})/i\<close>\<close>
  "simpleWasPattern = seqs [litI ''Was'', star space, Grp 1 odds35]"

definition nowPattern :: regex where
  \<comment> \<open>\<open>/Now\s*([+\-]?\d{3,5})/i\<close>\<close>
  "nowPattern = seqs [litI ''Now'', star space, Grp 1 odds35]"

definition nextOddsPattern :: regex where
  \<comment> \<open>\<open>/([+\-]?\d{3,5})/\<close>\<close>
  "nextOddsPattern = Grp 1 odds35"

definition simpleWas :: "jstring \<Rightarrow> jstring option \<Rightarrow> jstring option \<Rightarrow> detection" where
  "simpleWas t preBoost postBoost =
     (case match1 simpleWasPattern t of
        Some simpleWasMatch \<Rightarrow>
          if \<not> truthy preBoost \<and> \<not> truthy postBoost then
            (let pre = withSign (groups simpleWasMatch 1)
             in case match1 nowPattern t of
                  Some nowMatch \<Rightarrow> Return (Some pre) (Some (withSign (groups nowMatch 1)))
                | None \<Rightarrow>
                    (let afterWasText =
                           substring t (indexOf t (whole simpleWasMatch)
                                        + int (length (whole simpleWasMatch)));
                         post =
                           (case match1 nextOddsPattern afterWasText of
                              Some nextOddsMatch \<Rightarrow>
                                (let nextOdds = withSign (groups nextOddsMatch 1)
                                 in if nextOdds \<noteq> pre then Some nextOdds else postBoost)
                            | None \<Rightarrow> postBoost)
                     in if truthy (Some pre) \<and> truthy post then Return (Some pre) post
                        else Go (Some pre) post))
          else Go preBoost postBoost
      | None \<Rightarrow> Go preBoost postBoost)"

subsection \<open>Other separators\<close>

definition alternativeSeparatorPatterns :: "regex list" where
  \<comment> \<open>\<open>/Was\s*([+\-]?\d{3,5})\s*[|\\.,:;]\s*([+\-]?\d{3,5})/i\<close>,
      \<open>/Was\s*([+\-]?\d{3,5})\s+([+\-]\d{3,5})/i\<close>,
      \<open>/Was\s*([+\-]?\d{3,5})\s*\w*\s*([+\-]\d{3,5})/i\<close>\<close>
  "alternativeSeparatorPatterns =
     [seqs [litI ''Was'', star space, Grp 1 odds35, star space, oneOf [124, 92, 46, 44, 58, 59],
            star space, Grp 2 odds35],
      seqs [litI ''Was'', star space, Grp 1 odds35, plus1 space, Grp 2 signed35],
      seqs [litI ''Was'', star space, Grp 1 odds35, star space, star wordc, star space,
            Grp 2 signed35]]"

fun alternativeSeparators ::
    "regex list \<Rightarrow> jstring \<Rightarrow> jstring option \<Rightarrow> jstring option \<Rightarrow> detection" where
  "alternativeSeparators [] t preBoost postBoost = Go preBoost postBoost"
| "alternativeSeparators (pattern # rest) t preBoost postBoost =
     (case match1 pattern t of
        Some x \<Rightarrow>
          if \<not> truthy preBoost \<and> \<not> truthy postBoost
          then Return (Some (withSign (groups x 1))) (Some (withSign (groups x 2)))
          else alternativeSeparators rest t preBoost postBoost
      | None \<Rightarrow> alternativeSeparators rest t preBoost postBoost)"

subsection \<open>A misread word after Was\<close>

definition wasWithOcrErrorPattern :: regex where
  \<comment> \<open>\<open>/Was\s*([+\-]?\d{3,5})\s+(\w+)/i\<close>\<close>
  "wasWithOcrErrorPattern =
     seqs [litI ''Was'', star space, Grp 1 odds35, plus1 space, Grp 2 (plus1 wordc)]"

definition isAsciiLetter :: "int \<Rightarrow> bool" where
  \<comment> \<open>\<open>[a-zA-Z]\<close>\<close>
  "isAsciiLetter c = ((97 \<le> c \<and> c \<le> 122) \<or> (65 \<le> c \<and> c \<le> 90))"

definition digitsLetterPattern :: regex where
  \<comment> \<open>\<open>/^\d+[a-zA-Z]$/\<close>\<close>
  "digitsLetterPattern = seqs [Bol, plus1 digit, Cls isAsciiLetter, Eol]"

definition leadingDigitsPattern :: regex where
  \<comment> \<open>\<open>/^\d+/\<close>\<close>
  "leadingDigitsPattern = seqs [Bol, plus1 digit]"

definition correctedOdds :: "jstring \<Rightarrow> jstring option" where
  "correctedOdds ocrText =
     (if toLowerCase ocrText = utf16 ''1b'' then Some (utf16 ''+1800'')
      else if toLowerCase ocrText = utf16 ''lb'' then Some (utf16 ''+180'')
      else if test digitsLetterPattern ocrText then
        (case match1 leadingDigitsPattern ocrText of
           Some numPart \<Rightarrow>
             if whole numPart \<noteq> [] then Some (utf16 ''+'' @ whole numPart @ utf16 ''0'') else None
         | None \<Rightarrow> None)
      else None)"

definition wasWithOcrError :: "jstring \<Rightarrow> jstring option \<Rightarrow> jstring option \<Rightarrow> detection" where
  "wasWithOcrError t preBoost postBoost =
     (case match1 wasWithOcrErrorPattern t of
        Some x \<Rightarrow>
          if \<not> truthy preBoost \<and> \<not> truthy postBoost then
            (let pre = withSign (groups x 1)
             in if truthy (correctedOdds (groups x 2))
                then Return (Some pre) (correctedOdds (groups x 2))
                else Go (Some pre) postBoost)
          else Go preBoost postBoost
      | None \<Rightarrow> Go preBoost postBoost)"

subsection \<open>Was and two odds anywhere after it\<close>

definition plusDigits35 :: regex where
  \<comment> \<open>\<open>\+?\d{3,5}\<close>\<close>
  "plusDigits35 = Seq (opt (chr CHR ''+'')) (times 3 5 digit)"

definition wasGeneralPattern :: regex where
  \<comment> \<open>\<open>/Was.*?(\+?\d{3,5}).*?(\+?\d{3,5})/i\<close>\<close>
  "wasGeneralPattern =
     seqs [litI ''Was'', lazyStar dot, Grp 1 plusDigits35, lazyStar dot, Grp 2 plusDigits35]"

definition withPlus :: "jstring \<Rightarrow> jstring" where
  \<comment> \<open>\<open>x.startsWith('+') ? x : `+${x}`\<close>\<close>
  "withPlus x = (if startsWith x (utf16 ''+'') then x else utf16 ''+'' @ x)"

definition wasGeneral :: "jstring \<Rightarrow> jstring option \<Rightarrow> jstring option \<Rightarrow> detection" where
  "wasGeneral t preBoost postBoost =
     (case match1 wasGeneralPattern t of
        Some x \<Rightarrow>
          if \<not> truthy preBoost \<and> \<not> truthy postBoost
          then Return (Some (withPlus (groups x 1))) (Some (withPlus (groups x 2)))
          else Go preBoost postBoost
      | None \<Rightarrow> Go preBoost postBoost)"

subsection \<open>Was and Now on one line\<close>

definition sameLineWasNowPattern :: regex where
  \<comment> \<open>\<open>/Was\s*([+\-]?\d{3,5})\s*(?:Now|\<rightarrow>|->|\s)\s*([+\-]?\d{3,5})/i\<close>\<close>
  "sameLineWasNowPattern =
     seqs [litI ''Was'', star space, Grp 1 odds35, star space,
           Alt (litI ''Now'') (Alt (oneOf [arrow]) (Alt (litI ''->'') space)),
           star space, Grp 2 odds35]"

definition sameLineWasNow :: "jstring \<Rightarrow> jstring option \<Rightarrow> jstring option \<Rightarrow> detection" where
  "sameLineWasNow t preBoost postBoost =
     (case match1 sameLineWasNowPattern t of
        Some x \<Rightarrow>
          if \<not> truthy preBoost \<and> \<not> truthy postBoost
          then Return (Some (withSign (groups x 1))) (Some (withSign (groups x 2)))
          else Go preBoost postBoost
      | None \<Rightarrow> Go preBoost postBoost)"

subsection \<open>Was alone and a higher number\<close>

definition standaloneWasPattern :: regex where
  \<comment> \<open>\<open>/Was\s*[+\-]?(\d{3,5})/i\<close>\<close>
  "standaloneWasPattern = seqs [litI ''Was'', star space, opt sign, Grp 1 digits35]"

fun higherOdds :: "number \<Rightarrow> jstring list \<Rightarrow> jstring option" where
  \<comment> \<open>the loop over \<open>allOddsMatches\<close>; \<open>oddsMatch.replace(/[+\-]/, '')\<close> deletes the first
      sign only\<close>
  "higherOdds wasValue [] = None"
| "higherOdds wasValue (oddsMatch # rest) =
     (let cleanOdds = replaceFirst sign (\<lambda>x. []) oddsMatch;
          oddsValue = parseInt cleanOdds
      in if num_less wasValue oddsValue \<and> \<not> strict_eq oddsValue wasValue
         then Some (utf16 ''+'' @ cleanOdds)
         else higherOdds wasValue rest)"

definition standaloneWas :: "jstring \<Rightarrow> jstring option \<Rightarrow> jstring option \<Rightarrow> detection" where
  "standaloneWas t preBoost postBoost =
     (case match1 standaloneWasPattern t of
        Some standaloneWasMatch \<Rightarrow>
          if \<not> truthy preBoost \<and> \<not> truthy postBoost then
            (let wasValue = parseInt (groups standaloneWasMatch 1);
                 pre = utf16 ''+'' @ groups standaloneWasMatch 1
             in case matchGlobal odds35 t of
                  Some allOddsMatches \<Rightarrow>
                    Go (Some pre)
                       (case higherOdds wasValue allOddsMatches of
                          Some x \<Rightarrow> Some x
                        | None \<Rightarrow> postBoost)
                | None \<Rightarrow> Go (Some pre) postBoost)
          else Go preBoost postBoost
      | None \<Rightarrow> Go preBoost postBoost)"

subsection \<open>The validated Was/Now pair\<close>

definition wasNowFullPattern :: regex where
  \<comment> \<open>\<open>/Was\s*[+\-]?(\d{3,5})\s*.*?(?:v|\<rightarrow>|Now)\s*[+\-]?(\d{3,5})/gi\<close>\<close>
  "wasNowFullPattern =
     seqs [litI ''Was'', star space, opt sign, Grp 1 digits35, star space, lazyStar dot,
           Alt (chrI CHR ''v'') (Alt (oneOf [arrow]) (litI ''Now'')),
           star space, opt sign, Grp 2 digits35]"

definition nowNumPattern :: regex where
  \<comment> \<open>\<open>/(?:v|\<rightarrow>|Now)\s*[+\-]?(\d{3,5})/i\<close>\<close>
  "nowNumPattern =
     seqs [Alt (chrI CHR ''v'') (Alt (oneOf [arrow]) (litI ''Now'')),
           star space, opt sign, Grp 1 digits35]"

definition validatedPair :: "jstring \<Rightarrow> jstring \<Rightarrow> detection" where
  \<comment> \<open>The body of the branch, for the digits after Was and after Now. After the swap
      the source compares \<open>parseInt(nowNum[1]) < parseInt(wasNum[1])\<close>, the numbers in
      their first order once more. \<open>a <= b\<close> is written \<open>num_ge b a\<close>.\<close>
  "validatedPair wasDigits nowDigits =
     (let preValue = parseInt wasDigits;
          postValue = parseInt nowDigits
      in if num_less postValue preValue \<and> num_less (parseInt nowDigits) (parseInt wasDigits)
         then Return None None
         else
           (let preOdds = (if num_less postValue preValue then utf16 ''+'' @ nowDigits
                           else utf16 ''+'' @ wasDigits);
                postOdds = (if num_less postValue preValue then utf16 ''+'' @ wasDigits
                            else utf16 ''+'' @ nowDigits);
                finalPreValue = parseInt (replaceString preOdds (utf16 ''+'') []);
                finalPostValue = parseInt (replaceString postOdds (utf16 ''+'') [])
            in if num_ge finalPreValue finalPostValue then Return None None
               else Return (Some preOdds) (Some postOdds)))"

definition wasNowFull :: "jstring \<Rightarrow> jstring option \<Rightarrow> jstring option \<Rightarrow> detection" where
  "wasNowFull t preBoost postBoost =
     (case matchGlobal wasNowFullPattern t of
        Some (fullMatch # others) \<Rightarrow>
          (case (match1 standaloneWasPattern fullMatch, match1 nowNumPattern fullMatch) of
             (Some wasNum, Some nowNum) \<Rightarrow>
               if \<not> truthy preBoost \<and> \<not> truthy postBoost
               then validatedPair (groups wasNum 1) (groups nowNum 1)
               else Go preBoost postBoost
           | _ \<Rightarrow> Go preBoost postBoost)
      | _ \<Rightarrow> Go preBoost postBoost)"

subsection \<open>Wos for Was\<close>

definition wosPattern :: regex where
  \<comment> \<open>\<open>/Wos\s*([+\-]?\d{3,5})\s+([+\-]?\d{2,5}|[iv]\d{2,5}|[58]\d{3,4})/i\<close>\<close>
  "wosPattern =
     seqs [litI ''Wos'', star space, Grp 1 odds35, plus1 space,
           Grp 2 (Alt (Seq (opt sign) (times 2 5 digit))
                   (Alt (Seq (oneOfI (utf16 ''iv'')) (times 2 5 digit))
                        (Seq (oneOf (utf16 ''58'')) (times 3 4 digit))))]"

definition wos :: "jstring \<Rightarrow> jstring option \<Rightarrow> jstring option \<Rightarrow> detection" where
  "wos t preBoost postBoost =
     (case match1 wosPattern t of
        Some x \<Rightarrow>
          if \<not> truthy preBoost \<and> \<not> truthy postBoost then
            (let pre = withSign (groups x 1);
                 postMatch = groups x 2;
                 post =
                   (if startsWith postMatch (utf16 ''i'') \<or> startsWith postMatch (utf16 ''v'')
                    then utf16 ''+1'' @ substring postMatch 1
                    else if postMatch = utf16 ''5578'' then utf16 ''+'' @ utf16 ''8578''
                    else if \<not> startsWith postMatch (utf16 ''+'') \<and> \<not> startsWith postMatch (utf16 ''-'')
                    then utf16 ''+'' @ postMatch
                    else postMatch);
                 preValue = parseInt (stripSigns pre);
                 postValue = parseInt (stripSigns post)
             in if num_ge preValue postValue then Return None None
                else Return (Some pre) (Some post))
          else Go preBoost postBoost
      | None \<Rightarrow> Go preBoost postBoost)"

subsection \<open>Was and Now one by one\<close>

definition wasNowPatterns :: "regex list" where
  \<comment> \<open>\<open>/Was\s*[+\-]?\s*(\d{3,5})/gi\<close>, \<open>/Now\s*[+\-]?\s*(\d{3,5})/gi\<close>,
      \<open>/Was\s*[+\-]?(\d{3,5})\s*.*?Now\s*[+\-]?(\d{3,5})/gi\<close>\<close>
  "wasNowPatterns =
     [seqs [litI ''Was'', star space, opt sign, star space, Grp 1 digits35],
      seqs [litI ''Now'', star space, opt sign, star space, Grp 1 digits35],
      seqs [litI ''Was'', star space, opt sign, Grp 1 digits35, star space, lazyStar dot,
            litI ''Now'', star space, opt sign, Grp 2 digits35]]"

fun eachMatch ::
    "jmatch list \<Rightarrow> jstring option \<Rightarrow> jstring option \<Rightarrow> jstring option \<times> jstring option" where
  \<comment> \<open>\<open>matches.forEach\<close>: both assignments read group 1\<close>
  "eachMatch [] preBoost postBoost = (preBoost, postBoost)"
| "eachMatch (x # rest) preBoost postBoost =
     (let pre = (if includes_str (toLowerCase (whole x)) (utf16 ''was'') \<and> \<not> truthy preBoost
                 then Some (utf16 ''+'' @ groups x 1) else preBoost);
          post = (if includes_str (toLowerCase (whole x)) (utf16 ''now'') \<and> \<not> truthy postBoost
                  then Some (utf16 ''+'' @ groups x 1) else postBoost)
      in eachMatch rest pre post)"

fun eachPattern ::
    "regex list \<Rightarrow> jstring \<Rightarrow> jstring option \<Rightarrow> jstring option \<Rightarrow> jstring option \<times> jstring option" where
  "eachPattern [] t preBoost postBoost = (preBoost, postBoost)"
| "eachPattern (pattern # rest) t preBoost postBoost =
     (case eachMatch (matchAll pattern t) preBoost postBoost of
        (pre, post) \<Rightarrow> eachPattern rest t pre post)"

definition individualPatterns :: "jstring \<Rightarrow> jstring option \<Rightarrow> jstring option \<Rightarrow> detection" where
  "individualPatterns t preBoost postBoost =
     (if \<not> truthy preBoost \<or> \<not> truthy postBoost
      then (case eachPattern wasNowPatterns t preBoost postBoost of (pre, post) \<Rightarrow> Go pre post)
      else Go preBoost postBoost)"

subsection \<open>Any other number for the odds after the boost\<close>

fun otherNumber :: "number \<Rightarrow> jstring list \<Rightarrow> jstring option \<Rightarrow> jstring option" where
  \<comment> \<open>the loop over \<open>allNumbers\<close>: it stops at the first candidate if \<open>preBoostValue\<close> is
      positive, and goes on to the last candidate otherwise\<close>
  "otherNumber preBoostValue [] postBoost = postBoost"
| "otherNumber preBoostValue (numberMatch # rest) postBoost =
     (let numberValue = parseInt (stripSigns numberMatch)
      in if \<not> strict_eq numberValue preBoostValue \<and> num_less (Val 100) numberValue
            \<and> num_less numberValue (Val 10000)
         then
           (if num_less (Val 0) preBoostValue \<and> num_less preBoostValue numberValue
            then Some (withSign numberMatch)
            else if num_less (Val 0) preBoostValue \<and> num_less numberValue preBoostValue
            then Some (withSign numberMatch)
            else otherNumber preBoostValue rest (Some (withSign numberMatch)))
         else otherNumber preBoostValue rest postBoost)"

definition otherLargeNumber :: "jstring \<Rightarrow> jstring option \<Rightarrow> jstring option \<Rightarrow> detection" where
  "otherLargeNumber t preBoost postBoost =
     (case preBoost of
        Some pre \<Rightarrow>
          if truthy preBoost \<and> \<not> truthy postBoost then
            (let allNumbers = (case matchGlobal odds35 t of None \<Rightarrow> [] | Some xs \<Rightarrow> xs);
                 preBoostValue = parseInt (stripSigns pre)
             in Go preBoost (otherNumber preBoostValue allNumbers postBoost))
          else Go preBoost postBoost
      | None \<Rightarrow> Go preBoost postBoost)"

subsection \<open>The last look for Was and Now\<close>

definition lastWasNow :: "jstring \<Rightarrow> jstring option \<Rightarrow> jstring option \<Rightarrow> detection" where
  "lastWasNow t preBoost postBoost =
     (let wasMatch = match1 simpleWasPattern t;
          nowMatch = match1 nowPattern t;
          pre = (case wasMatch of
                   Some x \<Rightarrow> if \<not> truthy preBoost then Some (groups x 1) else preBoost
                 | None \<Rightarrow> preBoost);
          post = (case nowMatch of
                    Some x \<Rightarrow> if \<not> truthy postBoost then Some (groups x 1) else postBoost
                  | None \<Rightarrow> postBoost)
      in Return pre post)"

subsection \<open>The function\<close>

definition stages :: "jstring \<Rightarrow> (jstring option \<Rightarrow> jstring option \<Rightarrow> detection) list" where
  "stages t =
     [directOdds t, wasNowSeparator t, simpleWas t,
      alternativeSeparators alternativeSeparatorPatterns t, wasWithOcrError t, wasGeneral t,
      sameLineWasNow t, standaloneWas t, wasNowFull t, wos t, individualPatterns t,
      otherLargeNumber t, lastWasNow t]"

definition detectOdds :: "jstring option \<Rightarrow> jstring option \<times> jstring option" where
  \<comment> \<open>The argument is the text that the OCR engine reads in the odds crop, \<open>None\<close> when
      the image processing or the OCR throws (the \<open>catch\<close> branch). The result is the
      pair of \<open>preBoost\<close> and \<open>postBoost\<close>.\<close>
  "detectOdds ocr =
     (case ocr of
        None \<Rightarrow> (None, None)
      | Some text \<Rightarrow>
          (case foldl andThen (Go None None) (stages (cleanText text)) of
             Return preBoost postBoost \<Rightarrow> (preBoost, postBoost)
           | Go preBoost postBoost \<Rightarrow> (preBoost, postBoost)))"

section \<open>Rounding to doubles\<close>

lemma bitlen_pos: "0 < n \<Longrightarrow> 0 < bitlen n"
proof (induction n rule: bitlen.induct)
  case (1 n)
  have "0 \<le> bitlen (n div 2)"
  proof (cases "0 < n div 2")
    case True
    with 1 show ?thesis by simp
  next
    case False
    then show ?thesis by (simp add: bitlen.simps[of "n div 2"])
  qed
  with 1 show ?case by (simp add: bitlen.simps[of n])
qed


lemma bitlen_bounds:
  "0 < n \<Longrightarrow> 2 ^ nat (bitlen n - 1) \<le> n \<and> n < 2 ^ nat (bitlen n)"
proof (induction n rule: bitlen.induct)
  case (1 n)
  show ?case
  proof (cases "0 < n div 2")
    case False
    with 1(2) have n1: "n = 1" by presburger
    have "bitlen 1 = 1" by (simp add: bitlen.simps[of 1] bitlen.simps[of 0])
    with n1 show ?thesis by simp
  next
    case True
    from 1(2) have "\<not> n \<le> 0" by simp
    from 1(1)[OF this True]
    have ih: "2 ^ nat (bitlen (n div 2) - 1) \<le> n div 2" "n div 2 < 2 ^ nat (bitlen (n div 2))"
      by simp_all
    have bp: "0 < bitlen (n div 2)" using True by (rule bitlen_pos)
    have b: "bitlen n = 1 + bitlen (n div 2)" using 1(2) by (simp add: bitlen.simps[of n])
    have e1: "nat (bitlen n - 1) = Suc (nat (bitlen (n div 2) - 1))" using b bp by simp
    have e2: "nat (bitlen n) = Suc (nat (bitlen (n div 2)))" using b bp by simp
    have "2 * (n div 2) \<le> n" by presburger
    with ih(1) have lo: "2 ^ nat (bitlen n - 1) \<le> n" unfolding e1 by simp
    have "n < 2 * (n div 2) + 2" by presburger
    moreover from ih(2) have "2 * (n div 2) + 2 \<le> 2 * 2 ^ nat (bitlen (n div 2))" by simp
    ultimately have hi: "n < 2 ^ nat (bitlen n)" unfolding e2 by simp
    from lo hi show ?thesis by simp
  qed
qed

lemma powi_nat: "0 \<le> k \<Longrightarrow> (2::rat) powi k = of_int (2 ^ nat k)"
  by (simp add: power_int_nonneg_exp)

lemma powi_pos: "0 < (2::rat) powi k"
  by simp

lemma powi_mono: "k \<le> l \<Longrightarrow> (2::rat) powi k \<le> 2 powi l"
  by (rule power_int_increasing) simp_all

lemma powi_strict: "(2::rat) powi k < 2 powi l \<Longrightarrow> k < l"
proof (rule ccontr)
  assume a: "(2::rat) powi k < 2 powi l" and "\<not> k < l"
  then have "l \<le> k" by simp
  then have "(2::rat) powi l \<le> 2 powi k" by (rule powi_mono)
  with a show False by simp
qed

lemma powi_split: "(2::rat) powi (a + b) = 2 powi a * 2 powi b"
  by (rule power_int_add) simp

lemma powi_diff: "(2::rat) powi (a - b) = 2 powi a / 2 powi b"
  by (rule power_int_diff) simp

lemma expo_bounds:
  assumes "x \<noteq> 0"
  shows "2 powi (expo x) \<le> \<bar>x\<bar>" and "\<bar>x\<bar> < 2 powi (expo x + 1)"
proof -
  obtain p q where pq: "quotient_of \<bar>x\<bar> = (p, q)" by (cases "quotient_of \<bar>x\<bar>")
  then have q: "0 < q" by (rule quotient_of_denom_pos)
  from pq have x: "\<bar>x\<bar> = of_int p / of_int q" by (rule quotient_of_div)
  from assms have "0 < \<bar>x\<bar>" by simp
  with x q have p: "0 < p" by (simp add: zero_less_divide_iff)
  let ?a = "bitlen p" and ?b = "bitlen q"
  note bp = bitlen_bounds[OF p] and bq = bitlen_bounds[OF q]
  have ap: "0 < ?a" and bpos: "0 < ?b" using p q by (simp_all add: bitlen_pos)
  have p_lo: "(2::rat) powi (?a - 1) \<le> of_int p"
    using bp ap by (simp add: powi_nat del: of_int_power)
  have p_hi: "of_int p < (2::rat) powi ?a"
    using bp ap by (simp add: powi_nat del: of_int_power)
  have q_lo: "(2::rat) powi (?b - 1) \<le> of_int q"
    using bq bpos by (simp add: powi_nat del: of_int_power)
  have q_hi: "of_int q < (2::rat) powi ?b"
    using bq bpos by (simp add: powi_nat del: of_int_power)
  have qr: "(0::rat) < of_int q" using q by simp
  have pr: "(0::rat) < of_int p" using p by simp
  have hi: "\<bar>x\<bar> < 2 powi (?a - ?b + 1)"
  proof -
    have "of_int p / of_int q < (2::rat) powi ?a / of_int q"
      using p_hi qr by (simp add: divide_strict_right_mono)
    also have "\<dots> \<le> 2 powi ?a / 2 powi (?b - 1)"
      using q_lo qr by (intro divide_left_mono) (simp_all add: zero_less_mult_iff)
    also have "\<dots> = 2 powi (?a - (?b - 1))" by (simp add: powi_diff)
    finally show ?thesis by (simp add: x algebra_simps)
  qed
  have lo: "2 powi (?a - ?b - 1) \<le> \<bar>x\<bar>"
  proof -
    have "(2::rat) powi (?a - 1 - ?b) = 2 powi (?a - 1) / 2 powi ?b" by (simp add: powi_diff)
    also have "\<dots> \<le> of_int p / 2 powi ?b"
      using p_lo by (simp add: divide_right_mono)
    also have "\<dots> \<le> of_int p / of_int q"
      using q_hi qr pr by (intro divide_left_mono) (simp_all add: zero_less_mult_iff)
    finally show ?thesis by (simp add: x algebra_simps)
  qed
  have e: "expo x = (if 2 powi (?a - ?b) \<le> \<bar>x\<bar> then ?a - ?b else ?a - ?b - 1)"
    by (simp add: expo_def pq Let_def)
  show "2 powi (expo x) \<le> \<bar>x\<bar>" using lo by (simp add: e)
  show "\<bar>x\<bar> < 2 powi (expo x + 1)" using hi by (auto simp add: e)
qed

lemma expo_ge: "x \<noteq> 0 \<Longrightarrow> 2 powi k \<le> \<bar>x\<bar> \<Longrightarrow> k \<le> expo x"
proof -
  assume x: "x \<noteq> 0" and k: "2 powi k \<le> \<bar>x\<bar>"
  from k expo_bounds(2)[OF x] have "(2::rat) powi k < 2 powi (expo x + 1)" by simp
  then have "k < expo x + 1" by (rule powi_strict)
  then show ?thesis by simp
qed

lemma expo_le: "x \<noteq> 0 \<Longrightarrow> \<bar>x\<bar> < 2 powi (k + 1) \<Longrightarrow> expo x \<le> k"
proof -
  assume x: "x \<noteq> 0" and k: "\<bar>x\<bar> < 2 powi (k + 1)"
  from k expo_bounds(1)[OF x] have "(2::rat) powi (expo x) < 2 powi (k + 1)" by simp
  then have "expo x < k + 1" by (rule powi_strict)
  then show ?thesis by simp
qed


lemma roundHalfEven_ge: "of_int j \<le> y \<Longrightarrow> j \<le> roundHalfEven y"
proof -
  assume "of_int j \<le> y"
  then have "j \<le> \<lfloor>y\<rfloor>" by (simp add: le_floor_iff)
  then show ?thesis by (simp add: roundHalfEven_def Let_def)
qed


lemma roundHalfEven_int: "roundHalfEven (of_int j) = j"
  by (simp add: roundHalfEven_def)

lemma grid_lower:
  assumes "x \<noteq> 0" and "of_int j * 2 powi ulpExponent x \<le> x"
  shows "of_int j * 2 powi ulpExponent x \<le> roundToDouble x"
proof -
  let ?u = "(2::rat) powi ulpExponent x"
  have u: "0 < ?u" by simp
  from assms(2) u have "of_int j \<le> x / ?u" by (simp add: pos_le_divide_eq)
  then have "j \<le> roundHalfEven (x / ?u)" by (rule roundHalfEven_ge)
  then have "(of_int j :: rat) \<le> of_int (roundHalfEven (x / ?u))" by simp
  with u have "of_int j * ?u \<le> of_int (roundHalfEven (x / ?u)) * ?u"
    by (simp add: mult_right_mono)
  then show ?thesis using assms(1) by (simp add: roundToDouble_def)
qed


lemma roundToDouble_nonneg: "0 \<le> x \<Longrightarrow> 0 \<le> roundToDouble x"
proof (cases "x = 0")
  case True
  then show ?thesis by (simp add: roundToDouble_def)
next
  case False
  assume "0 \<le> x"
  then have "of_int 0 * 2 powi ulpExponent x \<le> x" by simp
  from grid_lower[OF False this] show ?thesis by simp
qed


lemma roundToDouble_ge_pow2:
  assumes "- 1022 \<le> k" and "2 powi k \<le> x"
  shows "2 powi k \<le> roundToDouble x"
proof -
  have xp: "0 < x" using assms(2) powi_pos[of k] by linarith
  then have x0: "x \<noteq> 0" and ax: "\<bar>x\<bar> = x" by simp_all
  have ke: "k \<le> expo x" using expo_ge[OF x0] assms(2) ax by simp
  let ?e = "ulpExponent x"
  have el: "?e \<le> expo x" using ke assms(1) by (simp add: ulpExponent_def)
  then have d: "0 \<le> expo x - ?e" by simp
  have "of_int (2 ^ nat (expo x - ?e)) * 2 powi ?e = (2::rat) powi (expo x - ?e) * 2 powi ?e"
    using d by (simp add: powi_nat)
  also have "\<dots> = 2 powi (expo x)" using powi_split[of "expo x - ?e" ?e] by simp
  finally have g: "of_int (2 ^ nat (expo x - ?e)) * 2 powi ?e = (2::rat) powi (expo x)" .
  have "2 powi (expo x) \<le> x" using expo_bounds(1)[OF x0] ax by simp
  with g have "of_int (2 ^ nat (expo x - ?e)) * 2 powi ?e \<le> x" by simp
  from grid_lower[OF x0 this] g have "2 powi (expo x) \<le> roundToDouble x" by simp
  moreover have "(2::rat) powi k \<le> 2 powi (expo x)" using ke by (rule powi_mono)
  ultimately show ?thesis by simp
qed

lemma roundToDouble_gt_1:
  assumes "1 + 1 / 128 \<le> x"
  shows "1 < roundToDouble x"
proof -
  have xp: "1 \<le> x" using assms by simp
  then have x0: "x \<noteq> 0" and ax: "\<bar>x\<bar> = x" by simp_all
  have "(2::rat) powi 0 \<le> \<bar>x\<bar>" using xp ax by simp
  from expo_ge[OF x0 this] have e0: "0 \<le> expo x" .
  show ?thesis
  proof (cases "expo x = 0")
    case True
    then have u: "ulpExponent x = - 52" by (simp add: ulpExponent_def)
    have "of_int (2 ^ 52 + 2 ^ 45) * (2::rat) powi (- 52) = 1 + 1 / 128"
      by (simp add: power_int_minus_divide)
    with assms have "of_int (2 ^ 52 + 2 ^ 45) * 2 powi ulpExponent x \<le> x" by (simp only: u)
    from grid_lower[OF x0 this] have "of_int (2 ^ 52 + 2 ^ 45) * 2 powi (- 52) \<le> roundToDouble x"
      by (simp only: u)
    then have "1 + 1 / 128 \<le> roundToDouble x"
      by (simp add: power_int_minus_divide)
    then show ?thesis by simp
  next
    case False
    with e0 have "1 \<le> expo x" by simp
    then have "(2::rat) powi 1 \<le> 2 powi (expo x)" by (rule powi_mono)
    also have "\<dots> \<le> x" using expo_bounds(1)[OF x0] ax by simp
    finally have "2 powi 1 \<le> x" .
    from roundToDouble_ge_pow2[OF _ this] have "2 \<le> roundToDouble x" by simp
    then show ?thesis by simp
  qed
qed

lemma roundToDouble_int:
  assumes "0 \<le> v" and "v < 2 ^ 53"
  shows "roundToDouble (of_int v) = of_int v"
proof (cases "v = 0")
  case True
  then show ?thesis by (simp add: roundToDouble_def)
next
  case False
  let ?x = "of_int v :: rat"
  from False assms(1) have vp: "0 < v" by simp
  then have x0: "?x \<noteq> 0" and ax: "\<bar>?x\<bar> = ?x" by simp_all
  have "1 \<le> ?x" using vp by simp
  then have "(2::rat) powi 0 \<le> \<bar>?x\<bar>" by simp
  from expo_ge[OF x0 this] have e0: "0 \<le> expo ?x" .
  have "?x < of_int (2 ^ 53)" using assms(2) by (simp only: of_int_less_iff)
  then have "\<bar>?x\<bar> < 2 powi (52 + 1)" using ax by simp
  from expo_le[OF x0 this] have e52: "expo ?x \<le> 52" .
  have u: "ulpExponent ?x = expo ?x - 52" using e0 by (simp add: ulpExponent_def)
  let ?s = "nat (52 - expo ?x)"
  have "(2::rat) powi (expo ?x - 52) * 2 powi (52 - expo ?x) = 1"
    using powi_split[of "expo ?x - 52" "52 - expo ?x"] by simp
  moreover have "(2::rat) powi (52 - expo ?x) = of_int (2 ^ ?s)" using e52 by (simp add: powi_nat)
  ultimately have inv: "(2::rat) powi (expo ?x - 52) * of_int (2 ^ ?s) = 1" by simp
  have "?x / 2 powi (expo ?x - 52) = ?x * of_int (2 ^ ?s)"
    using inv by (simp add: field_simps)
  also have "\<dots> = of_int (v * 2 ^ ?s)" by simp
  finally have m: "?x / 2 powi (expo ?x - 52) = of_int (v * 2 ^ ?s)" .
  have "roundToDouble ?x = of_int (v * 2 ^ ?s) * 2 powi (expo ?x - 52)"
    using x0 by (simp only: roundToDouble_def u m roundHalfEven_int if_False)
  also have "\<dots> = ?x * (2 powi (expo ?x - 52) * of_int (2 ^ ?s))" by simp
  also have "\<dots> = ?x" by (simp only: inv mult_1_right)
  finally show ?thesis .
qed


subsection \<open>Results of the operations\<close>

lemma toDouble_cases: "toDouble x = Val (roundToDouble x) \<or> toDouble x = inf_of_sign (x < 0)"
  by (simp add: toDouble_def Let_def)

lemma toDouble_not_NaN: "toDouble x \<noteq> NaN"
  by (simp add: toDouble_def Let_def inf_of_sign_def)

lemma toDouble_ge_pow2:
  assumes "- 1022 \<le> k" and "2 powi k \<le> x"
  shows "toDouble x = PosInf \<or> (\<exists>y. toDouble x = Val y \<and> 2 powi k \<le> y)"
proof -
  have "0 < x" using assms(2) powi_pos[of k] by linarith
  then have "\<not> x < 0" by simp
  with toDouble_cases[of x] roundToDouble_ge_pow2[OF assms] show ?thesis
    by (auto simp add: inf_of_sign_def)
qed

lemma toDouble_nonneg:
  assumes "0 \<le> x"
  shows "toDouble x = PosInf \<or> (\<exists>y. toDouble x = Val y \<and> 0 \<le> y)"
proof -
  from assms have "\<not> x < 0" by simp
  with toDouble_cases[of x] roundToDouble_nonneg[OF assms] show ?thesis
    by (auto simp add: inf_of_sign_def)
qed


lemma toDouble_gt_1:
  assumes "1 + 1 / 128 \<le> x"
  shows "num_less (Val 1) (toDouble x)"
proof -
  from assms have "\<not> x < 0" by simp
  with toDouble_cases[of x] roundToDouble_gt_1[OF assms] show ?thesis
    by (auto simp add: inf_of_sign_def)
qed

lemma toDouble_int:
  assumes "0 \<le> v" and "v < 2 ^ 53"
  shows "toDouble (of_int v) = Val (of_int v)"
proof (cases "v = 0")
  case True
  then show ?thesis by (simp add: toDouble_def roundToDouble_def)
next
  case False
  with assms(1) have vp: "0 < v" by simp
  then have x0: "(of_int v :: rat) \<noteq> 0" by simp
  have "(of_int v :: rat) < of_int (2 ^ 53)" using assms(2) by (simp only: of_int_less_iff)
  then have "\<bar>of_int v :: rat\<bar> < 2 powi (52 + 1)" using vp by simp
  from expo_le[OF x0 this] have "expo (of_int v) \<le> 52" .
  then have "\<not> 1024 \<le> expo (of_int v)" by simp
  then show ?thesis by (simp add: toDouble_def roundToDouble_int[OF assms])
qed

lemma num_add_not_NaN: "num_add (Val a) (Val b) \<noteq> NaN"
  by (simp add: toDouble_not_NaN)

lemma num_sub_not_NaN: "num_sub (Val a) (Val b) \<noteq> NaN"
  by (simp add: num_sub_def toDouble_not_NaN)

lemma num_div_not_NaN: "x \<noteq> NaN \<Longrightarrow> c \<noteq> 0 \<Longrightarrow> num_div x (Val c) \<noteq> NaN"
  by (cases x) (simp_all add: toDouble_not_NaN inf_of_sign_def)

lemma num_mul_not_NaN: "x \<noteq> NaN \<Longrightarrow> c \<noteq> 0 \<Longrightarrow> num_mul x (Val c) \<noteq> NaN"
  by (cases x) (simp_all add: toDouble_not_NaN inf_of_sign_def)

lemma Math_round_not_NaN: "x \<noteq> NaN \<Longrightarrow> Math_round x \<noteq> NaN"
  by (cases x) simp_all

section \<open>The percentage of a cycle is never NaN\<close>

lemma not_Infinity:
  assumes "set s2 \<subseteq> {c. isDigit c \<or> c = 46 \<or> c = 45}"
  shows "\<not> startsWith s2 (utf16 ''Infinity'')"
proof
  assume a: "startsWith s2 (utf16 ''Infinity'')"
  then have "s2 \<noteq> []" by (auto simp: startsWith_def utf16_def)
  moreover from a have "hd s2 = 73"
    by (cases s2) (auto simp: startsWith_def utf16_def)
  ultimately have "73 \<in> set s2" by (metis hd_in_set)
  with assms show False by (auto simp: isDigit_def)
qed

lemma parseFloat_keepNumeric:
  "parseFloat (keepNumeric s) = NaN \<or> (\<exists>q. parseFloat (keepNumeric s) = Val q)"
proof -
  let ?s1 = "dropWhile isSpace (keepNumeric s)"
  let ?s2 = "if ?s1 \<noteq> [] \<and> (hd ?s1 = 43 \<or> hd ?s1 = 45) then tl ?s1 else ?s1"
  have "set ?s1 \<subseteq> set (keepNumeric s)" by (rule set_dropWhileD[THEN subsetI]) 
  moreover have "set ?s2 \<subseteq> set ?s1" by (cases "dropWhile isSpace (keepNumeric s)") auto
  moreover have "set (keepNumeric s) \<subseteq> {c. isDigit c \<or> c = 46 \<or> c = 45}"
    by (auto simp: keepNumeric_def)
  ultimately have "set ?s2 \<subseteq> {c. isDigit c \<or> c = 46 \<or> c = 45}" by blast
  then have "\<not> startsWith ?s2 (utf16 ''Infinity'')" by (rule not_Infinity)
  then show ?thesis
    by (simp add: parseFloat_def Let_def)
qed

lemma boostPercentage_Some:
  assumes "boostPercentage oc = Some p"
  shows "\<exists>orig boosted a b.
           originalOdds oc = Some orig \<and> boostedOdds oc = Some boosted \<and> orig \<noteq> [] \<and> boosted \<noteq> []
         \<and> parseFloat (keepNumeric orig) = Val a \<and> parseFloat (keepNumeric boosted) = Val b \<and> a \<noteq> 0
         \<and> p = num_div (Math_round (num_mul (num_mul (num_div (num_sub (Val b) (Val a)) (Val a))
                    (Val 100)) (Val 10))) (Val 10)
         \<and> p \<noteq> NaN"
proof -
  from assms obtain orig boosted where ob: "originalOdds oc = Some orig" "boostedOdds oc = Some boosted"
      "orig \<noteq> []" "boosted \<noteq> []"
    by (auto simp: boostPercentage_def split: option.splits if_splits)
  let ?w = "parseFloat (keepNumeric orig)" and ?n = "parseFloat (keepNumeric boosted)"
  from assms ob have c: "?w \<noteq> NaN" "?n \<noteq> NaN" "\<not> strict_eq ?w (Val 0)"
    and p: "p = num_div (Math_round (num_mul (num_mul (num_div (num_sub ?n ?w) ?w) (Val 100)) (Val 10))) (Val 10)"
    by (auto simp: boostPercentage_def Let_def isNaN_def split: if_splits)
  from c parseFloat_keepNumeric[of orig] obtain a where a: "?w = Val a" by auto
  from c parseFloat_keepNumeric[of boosted] obtain b where b: "?n = Val b" by auto
  from c a have a0: "a \<noteq> 0" by (simp add: strict_eq_def)
  have p': "p = num_div (Math_round (num_mul (num_mul (num_div (num_sub (Val b) (Val a)) (Val a))
                    (Val 100)) (Val 10))) (Val 10)"
    using p a b by simp
  have "num_div (num_sub (Val b) (Val a)) (Val a) \<noteq> NaN"
    using a0 by (intro num_div_not_NaN num_sub_not_NaN)
  then have "num_mul (num_mul (num_div (num_sub (Val b) (Val a)) (Val a)) (Val 100)) (Val 10) \<noteq> NaN"
    by (intro num_mul_not_NaN) simp_all
  then have "p \<noteq> NaN" unfolding p'
    by (intro num_div_not_NaN Math_round_not_NaN) simp_all
  with ob a b a0 p' show ?thesis by blast
qed

lemma cyclePercentage_finite: "cyclePercentage d = Some p \<Longrightarrow> p \<noteq> NaN"
  by (auto simp: cyclePercentage_def split: if_splits dest: boostPercentage_Some)

lemma cyclePercentage_truthy:
  assumes "cyclePercentage d = Some p"
  shows "truthy (originalOdds (detectOddsComparison (oddsOcr d)))"
    and "truthy (boostedOdds (detectOddsComparison (oddsOcr d)))"
    and "\<not> cropFailed d" and "\<not> cropTooSmall d"
    and "boostPercentage (detectOddsComparison (oddsOcr d)) = Some p"
  using assms by (auto simp: cyclePercentage_def truthy_def split: if_splits dest: boostPercentage_Some)

subsection \<open>What one step does to the health variables\<close>

lemma isDifferentBoost_cong:
  "isDifferentBoost (s\<lparr> detectedPreBoostOdds := a, detectedPostBoostOdds := b,
        detectedBoostPercentageVar := c, sent := e \<rparr>) p x y = isDifferentBoost s p x y"
  by (simp add: isDifferentBoost_def)

lemma screenData_failed:
  assumes "cyclePercentage d = None"
  shows "consecutiveNumberFailures (screenData d s) = consecutiveNumberFailures s + 1"
    and "lastUniqueBoostTime (screenData d s) = lastUniqueBoostTime s"
    and "noNewBoostNotified (screenData d s) = noNewBoostNotified s"
    and "numberFailureNotified (screenData d s) = numberFailureNotified s"
    and "lastBoostData (screenData d s) = lastBoostData s"
    and "filter isBoostAlert (sent (screenData d s)) = filter isBoostAlert (sent s)"
    and "filter isNoNewBoostAlert (sent (screenData d s)) = filter isNoNewBoostAlert (sent s)"
    and "filter isNumberFailureAlert (sent (screenData d s)) = filter isNumberFailureAlert (sent s)"
proof -
  from assms have "cropFailed d \<or> cropTooSmall d
      \<or> boostPercentage (detectOddsComparison (oddsOcr d)) = None"
    by (auto simp add: cyclePercentage_def split: if_splits)
  then show "consecutiveNumberFailures (screenData d s) = consecutiveNumberFailures s + 1"
    and "lastUniqueBoostTime (screenData d s) = lastUniqueBoostTime s"
    and "noNewBoostNotified (screenData d s) = noNewBoostNotified s"
    and "numberFailureNotified (screenData d s) = numberFailureNotified s"
    and "lastBoostData (screenData d s) = lastBoostData s"
    and "filter isBoostAlert (sent (screenData d s)) = filter isBoostAlert (sent s)"
    and "filter isNoNewBoostAlert (sent (screenData d s)) = filter isNoNewBoostAlert (sent s)"
    and "filter isNumberFailureAlert (sent (screenData d s)) = filter isNumberFailureAlert (sent s)"
    by (auto simp add: screenData_def Let_def)
qed

lemma newBoostCycle_percentage: "newBoostCycle d s \<Longrightarrow> \<exists>p. cyclePercentage d = Some p"
  by (cases "cyclePercentage d") (simp_all add: newBoostCycle_def)

lemma newBoostCycle_iff:
  "cyclePercentage d = Some p \<Longrightarrow>
     newBoostCycle d s = isDifferentBoost s p (originalOdds (detectOddsComparison (oddsOcr d)))
                           (boostedOdds (detectOddsComparison (oddsOcr d)))"
  by (simp add: newBoostCycle_def)

lemma screenData_repeat:
  assumes "cyclePercentage d = Some p" and "\<not> newBoostCycle d s"
  shows "consecutiveNumberFailures (screenData d s) = 0"
    and "lastUniqueBoostTime (screenData d s) = lastUniqueBoostTime s"
    and "noNewBoostNotified (screenData d s) = noNewBoostNotified s"
    and "\<not> numberFailureNotified (screenData d s)"
    and "lastBoostData (screenData d s) = lastBoostData s"
    and "filter isBoostAlert (sent (screenData d s)) = filter isBoostAlert (sent s)"
    and "filter isNoNewBoostAlert (sent (screenData d s)) = filter isNoNewBoostAlert (sent s)"
    and "filter isNumberFailureAlert (sent (screenData d s)) = filter isNumberFailureAlert (sent s)"
proof -
  note t = cyclePercentage_truthy[OF assms(1)]
  have n: "\<not> isDifferentBoost s p (originalOdds (detectOddsComparison (oddsOcr d)))
             (boostedOdds (detectOddsComparison (oddsOcr d)))"
    using assms by (simp add: newBoostCycle_iff)
  show "consecutiveNumberFailures (screenData d s) = 0"
    and "lastUniqueBoostTime (screenData d s) = lastUniqueBoostTime s"
    and "noNewBoostNotified (screenData d s) = noNewBoostNotified s"
    and "\<not> numberFailureNotified (screenData d s)"
    and "lastBoostData (screenData d s) = lastBoostData s"
    and "filter isBoostAlert (sent (screenData d s)) = filter isBoostAlert (sent s)"
    and "filter isNoNewBoostAlert (sent (screenData d s)) = filter isNoNewBoostAlert (sent s)"
    and "filter isNumberFailureAlert (sent (screenData d s)) = filter isNumberFailureAlert (sent s)"
    using t n
    by (simp_all add: screenData_def reconcile_def isDifferentBoost_cong Let_def)
qed

lemma screenData_new:
  assumes "cyclePercentage d = Some p" and "newBoostCycle d s"
  shows "consecutiveNumberFailures (screenData d s) = 0"
    and "lastUniqueBoostTime (screenData d s) = clockUnique d"
    and "\<not> noNewBoostNotified (screenData d s)"
    and "\<not> numberFailureNotified (screenData d s)"
    and "lastBoostData (screenData d s) =
           Some \<lparr> percentage = p,
                  wasOdds = originalOdds (detectOddsComparison (oddsOcr d)),
                  nowOdds = boostedOdds (detectOddsComparison (oddsOcr d)),
                  timestamp = clockObserved d \<rparr>"
    and "filter isBoostAlert (sent (screenData d s)) =
           filter isBoostAlert (sent s) @
             [BoostAlert p (originalOdds (detectOddsComparison (oddsOcr d)))
                           (boostedOdds (detectOddsComparison (oddsOcr d)))]"
    and "filter isNoNewBoostAlert (sent (screenData d s)) = filter isNoNewBoostAlert (sent s)"
    and "filter isNumberFailureAlert (sent (screenData d s)) = filter isNumberFailureAlert (sent s)"
proof -
  note t = cyclePercentage_truthy[OF assms(1)]
  have n: "isDifferentBoost s p (originalOdds (detectOddsComparison (oddsOcr d)))
             (boostedOdds (detectOddsComparison (oddsOcr d)))"
    using assms by (simp add: newBoostCycle_iff)
  show "consecutiveNumberFailures (screenData d s) = 0"
    and "lastUniqueBoostTime (screenData d s) = clockUnique d"
    and "\<not> noNewBoostNotified (screenData d s)"
    and "\<not> numberFailureNotified (screenData d s)"
    and "lastBoostData (screenData d s) =
           Some \<lparr> percentage = p,
                  wasOdds = originalOdds (detectOddsComparison (oddsOcr d)),
                  nowOdds = boostedOdds (detectOddsComparison (oddsOcr d)),
                  timestamp = clockObserved d \<rparr>"
    and "filter isBoostAlert (sent (screenData d s)) =
           filter isBoostAlert (sent s) @
             [BoostAlert p (originalOdds (detectOddsComparison (oddsOcr d)))
                           (boostedOdds (detectOddsComparison (oddsOcr d)))]"
    and "filter isNoNewBoostAlert (sent (screenData d s)) = filter isNoNewBoostAlert (sent s)"
    and "filter isNumberFailureAlert (sent (screenData d s)) = filter isNumberFailureAlert (sent s)"
    using t n
    by (simp_all add: screenData_def reconcile_def sendNotification_def js_or_def
          isDifferentBoost_cong Let_def)
qed

lemma checkNoNewBoost_fields:
  "lastUniqueBoostTime (checkNoNewBoost t s) = lastUniqueBoostTime s"
  "consecutiveNumberFailures (checkNoNewBoost t s) = consecutiveNumberFailures s"
  "numberFailureNotified (checkNoNewBoost t s) = numberFailureNotified s"
  "lastBoostData (checkNoNewBoost t s) = lastBoostData s"
  "filter isBoostAlert (sent (checkNoNewBoost t s)) = filter isBoostAlert (sent s)"
  "filter isNumberFailureAlert (sent (checkNoNewBoost t s)) = filter isNumberFailureAlert (sent s)"
  by (simp_all add: checkNoNewBoost_def Let_def)

lemma checkNoNewBoost_flag:
  "noNewBoostNotified (checkNoNewBoost t s) =
     (noNewBoostNotified s \<or> NO_NEW_BOOST_TIMEOUT < t - lastUniqueBoostTime s)"
  by (auto simp add: checkNoNewBoost_def Let_def)

lemma checkNoNewBoost_count:
  "countSent isNoNewBoostAlert (checkNoNewBoost t s) =
     countSent isNoNewBoostAlert s +
       (if NO_NEW_BOOST_TIMEOUT < t - lastUniqueBoostTime s \<and> \<not> noNewBoostNotified s then 1 else 0)"
  by (simp add: checkNoNewBoost_def countSent_def Let_def)

lemma checkNumberFailures_fields:
  "lastUniqueBoostTime (checkNumberFailures s) = lastUniqueBoostTime s"
  "consecutiveNumberFailures (checkNumberFailures s) = consecutiveNumberFailures s"
  "noNewBoostNotified (checkNumberFailures s) = noNewBoostNotified s"
  "lastBoostData (checkNumberFailures s) = lastBoostData s"
  "filter isBoostAlert (sent (checkNumberFailures s)) = filter isBoostAlert (sent s)"
  "filter isNoNewBoostAlert (sent (checkNumberFailures s)) = filter isNoNewBoostAlert (sent s)"
  by (simp_all add: checkNumberFailures_def)



lemma run_Nil: "run [] s = s"
  by (simp add: run_def)

lemma run_Cons: "run (e # es) s = run es (step e s)"
  by (simp add: run_def)

lemma run_append: "run (es @ fs) s = run fs (run es s)"
  by (simp add: run_def)

subsection \<open>The stale-boost watch over a run\<close>

lemma quiet_step_stale:
  assumes "noTransition s [e]"
  shows "lastUniqueBoostTime (step e s) = lastUniqueBoostTime s"
    and "\<not> isNoNewBoostTick e \<Longrightarrow> noNewBoostNotified (step e s) = noNewBoostNotified s"
    and "\<not> isNoNewBoostTick e \<Longrightarrow> countSent isNoNewBoostAlert (step e s) = countSent isNoNewBoostAlert s"
proof -
  show "lastUniqueBoostTime (step e s) = lastUniqueBoostTime s"
  proof (cases e)
    case (ScreenData d)
    with assms have q: "\<not> newBoostCycle d s" by simp
    show ?thesis
    proof (cases "cyclePercentage d")
      case None
      then show ?thesis using ScreenData by (simp add: screenData_failed)
    next
      case (Some p)
      then show ?thesis using ScreenData q by (simp add: screenData_repeat)
    qed
  qed (simp_all add: checkNoNewBoost_fields checkNumberFailures_fields)
  show "noNewBoostNotified (step e s) = noNewBoostNotified s" if "\<not> isNoNewBoostTick e"
  proof (cases e)
    case (ScreenData d)
    with assms have q: "\<not> newBoostCycle d s" by simp
    show ?thesis
    proof (cases "cyclePercentage d")
      case None
      then show ?thesis using ScreenData by (simp add: screenData_failed)
    next
      case (Some p)
      then show ?thesis using ScreenData q by (simp add: screenData_repeat)
    qed
  qed (use that in \<open>simp_all add: checkNumberFailures_fields\<close>)
  show "countSent isNoNewBoostAlert (step e s) = countSent isNoNewBoostAlert s" if "\<not> isNoNewBoostTick e"
  proof (cases e)
    case (ScreenData d)
    with assms have q: "\<not> newBoostCycle d s" by simp
    show ?thesis
    proof (cases "cyclePercentage d")
      case None
      then show ?thesis using ScreenData by (simp add: screenData_failed countSent_def)
    next
      case (Some p)
      then show ?thesis using ScreenData q by (simp add: screenData_repeat countSent_def)
    qed
  qed (use that in \<open>simp_all add: checkNumberFailures_fields countSent_def\<close>)
qed

lemma noTransition_Cons: "noTransition s (e # es) = (noTransition s [e] \<and> noTransition (step e s) es)"
  by (cases e) simp_all

lemma stale_run:
  assumes "noTransition s es"
    and "\<forall>e\<in>set es. tickAfter (lastUniqueBoostTime s + NO_NEW_BOOST_TIMEOUT) e"
  shows "countSent isNoNewBoostAlert (run es s) =
           countSent isNoNewBoostAlert s +
             (if \<not> noNewBoostNotified s \<and> (\<exists>e\<in>set es. isNoNewBoostTick e) then 1 else 0)
       \<and> noNewBoostNotified (run es s) = (noNewBoostNotified s \<or> (\<exists>e\<in>set es. isNoNewBoostTick e))
       \<and> lastUniqueBoostTime (run es s) = lastUniqueBoostTime s"
  using assms
proof (induction es arbitrary: s)
  case Nil
  then show ?case by (simp add: run_Nil)
next
  case (Cons e es)
  from Cons.prems(1) have q: "noTransition s [e]" and q': "noTransition (step e s) es"
    using noTransition_Cons by blast+
  have u: "lastUniqueBoostTime (step e s) = lastUniqueBoostTime s"
    using q by (rule quiet_step_stale(1))
  from Cons.prems(2) u have "\<forall>x\<in>set es. tickAfter (lastUniqueBoostTime (step e s) + NO_NEW_BOOST_TIMEOUT) x"
    by simp
  from Cons.IH[OF q' this] have ih:
    "countSent isNoNewBoostAlert (run es (step e s)) =
       countSent isNoNewBoostAlert (step e s) +
         (if \<not> noNewBoostNotified (step e s) \<and> (\<exists>e\<in>set es. isNoNewBoostTick e) then 1 else 0)"
    "noNewBoostNotified (run es (step e s)) =
       (noNewBoostNotified (step e s) \<or> (\<exists>e\<in>set es. isNoNewBoostTick e))"
    "lastUniqueBoostTime (run es (step e s)) = lastUniqueBoostTime (step e s)"
    by simp_all
  show ?case
  proof (cases "isNoNewBoostTick e")
    case True
    then obtain t where e: "e = NoNewBoostTick t" by (cases e) simp_all
    with Cons.prems(2) have "NO_NEW_BOOST_TIMEOUT < t - lastUniqueBoostTime s" by simp
    then show ?thesis using ih u e
      by (simp add: run_Cons checkNoNewBoost_flag checkNoNewBoost_count)
  next
    case False
    then show ?thesis using ih u quiet_step_stale(2,3)[OF q False]
      by (simp add: run_Cons)
  qed
qed

subsection \<open>The failure watch over a run\<close>



section \<open>The claims about the reconciler\<close>

lemma example_odds:
  "originalOdds (detectOddsComparison (Some (utf16 ''Was +950 > Now +1129''))) = Some (utf16 ''+950'')
 \<and> boostedOdds (detectOddsComparison (Some (utf16 ''Was +950 > Now +1129''))) = Some (utf16 ''+1129'')"
  by code_simp

lemma example_percentage:
  "cyclePercentage (exampleCycle (utf16 ''Was +950 > Now +1129'')) = Some (toDouble (94 / 5))"
  by code_simp

lemma example_fields:
  "oddsOcr (exampleCycle t) = Some t" "clockObserved (exampleCycle t) = 5000"
  "clockUnique (exampleCycle t) = 5001" "\<not> cropFailed (exampleCycle t)"
  "\<not> cropTooSmall (exampleCycle t)"
  by (simp_all add: exampleCycle_def)

lemma example_new: "newBoostCycle (exampleCycle (utf16 ''Was +950 > Now +1129'')) (startup 0)"
  by (simp add: newBoostCycle_def example_percentage isDifferentBoost_def startup_def)

lemma strict_eq_plain: "p \<noteq> NaN \<Longrightarrow> strict_eq a p = (a = p)"
  by (auto simp add: strict_eq_def)

text \<open>
  C2. \<open>isDifferentBoost\<close> answers true exactly when no identity is stored, or the
  stored percentage, the stored ``was'' odds or the stored ``now'' odds differ from
  the observed ones. The odds are compared as values, \<open>null\<close> being equal to \<open>null\<close>;
  the percentages are compared with \<open>!==\<close>, which is plain inequality for every
  observed percentage other than \<open>NaN\<close>. A cycle never obtains \<open>NaN\<close>, and after a
  new-boost transition has stored the triple of its observation, \<open>isDifferentBoost\<close>
  answers false for that same triple.
\<close>

theorem isDifferentBoost_triple:
  "(isDifferentBoost s p w n \<longleftrightarrow>
      lastBoostData s = None
    \<or> (\<exists>l. lastBoostData s = Some l
           \<and> (\<not> strict_eq (percentage l) p \<or> wasOdds l \<noteq> w \<or> nowOdds l \<noteq> n)))
 \<and> (p \<noteq> NaN \<longrightarrow> (\<forall>a. strict_eq a p = (a = p)))
 \<and> (newBoostCycle d s \<longrightarrow>
      (\<exists>q. cyclePercentage d = Some q \<and> q \<noteq> NaN
         \<and> lastBoostData (screenData d s) =
             Some \<lparr> percentage = q,
                    wasOdds = originalOdds (detectOddsComparison (oddsOcr d)),
                    nowOdds = boostedOdds (detectOddsComparison (oddsOcr d)),
                    timestamp = clockObserved d \<rparr>
         \<and> \<not> isDifferentBoost (screenData d s) q
               (originalOdds (detectOddsComparison (oddsOcr d)))
               (boostedOdds (detectOddsComparison (oddsOcr d)))))"
proof (intro conjI impI)
  show "isDifferentBoost s p w n \<longleftrightarrow>
      lastBoostData s = None
    \<or> (\<exists>l. lastBoostData s = Some l
           \<and> (\<not> strict_eq (percentage l) p \<or> wasOdds l \<noteq> w \<or> nowOdds l \<noteq> n))"
    by (cases "lastBoostData s") (auto simp add: isDifferentBoost_def Let_def)
next
  assume "p \<noteq> NaN"
  then show "\<forall>a. strict_eq a p = (a = p)" by (simp add: strict_eq_plain)
next
  assume nb: "newBoostCycle d s"
  then obtain q where q: "cyclePercentage d = Some q" using newBoostCycle_percentage by blast
  have f: "q \<noteq> NaN" using q by (rule cyclePercentage_finite)
  note l = screenData_new(5)[OF q nb]
  have "\<not> isDifferentBoost (screenData d s) q
               (originalOdds (detectOddsComparison (oddsOcr d)))
               (boostedOdds (detectOddsComparison (oddsOcr d)))"
    using f by (simp add: isDifferentBoost_def l strict_eq_def)
  with q f l show "\<exists>q. cyclePercentage d = Some q \<and> q \<noteq> NaN
         \<and> lastBoostData (screenData d s) =
             Some \<lparr> percentage = q,
                    wasOdds = originalOdds (detectOddsComparison (oddsOcr d)),
                    nowOdds = boostedOdds (detectOddsComparison (oddsOcr d)),
                    timestamp = clockObserved d \<rparr>
         \<and> \<not> isDifferentBoost (screenData d s) q
               (originalOdds (detectOddsComparison (oddsOcr d)))
               (boostedOdds (detectOddsComparison (oddsOcr d)))"
    by blast
qed

theorem isDifferentBoost_triple_witness:
  "newBoostCycle (exampleCycle (utf16 ''Was +950 > Now +1129'')) (startup 0)
 \<and> toDouble (94 / 5) \<noteq> NaN
 \<and> isDifferentBoost (startup 0) (toDouble (94 / 5)) (Some (utf16 ''+950'')) (Some (utf16 ''+1129''))
 \<and> \<not> isDifferentBoost
       (screenData (exampleCycle (utf16 ''Was +950 > Now +1129'')) (startup 0))
       (toDouble (94 / 5)) (Some (utf16 ''+950'')) (Some (utf16 ''+1129''))"
proof -
  let ?d = "exampleCycle (utf16 ''Was +950 > Now +1129'')"
  have nb: "newBoostCycle ?d (startup 0)" by (rule example_new)
  have n: "lastBoostData (startup 0) = None" by (simp add: startup_def)
  from isDifferentBoost_triple[of "startup 0" "toDouble (94 / 5)" "Some (utf16 ''+950'')"
      "Some (utf16 ''+1129'')" ?d] nb n
  show ?thesis
    by (simp add: example_percentage example_odds example_fields)
qed

text \<open>
  C3. A new-boost transition stores the triple of the observation as the identity,
  sets the failure counter to 0 and clears the failure flag, sets
  \<open>lastUniqueBoostTime\<close> to the clock and clears the stale flag, and hands exactly one
  boost alert, for this observation, to the notifier.
\<close>

theorem new_boost_transition:
  assumes "newBoostCycle d s"
  shows "\<exists>p. cyclePercentage d = Some p
     \<and> lastBoostData (screenData d s) =
         Some \<lparr> percentage = p,
                wasOdds = originalOdds (detectOddsComparison (oddsOcr d)),
                nowOdds = boostedOdds (detectOddsComparison (oddsOcr d)),
                timestamp = clockObserved d \<rparr>
     \<and> consecutiveNumberFailures (screenData d s) = 0
     \<and> \<not> numberFailureNotified (screenData d s)
     \<and> lastUniqueBoostTime (screenData d s) = clockUnique d
     \<and> \<not> noNewBoostNotified (screenData d s)
     \<and> filter isBoostAlert (sent (screenData d s)) =
         filter isBoostAlert (sent s) @
           [BoostAlert p (originalOdds (detectOddsComparison (oddsOcr d)))
                         (boostedOdds (detectOddsComparison (oddsOcr d)))]
     \<and> countSent isBoostAlert (screenData d s) = countSent isBoostAlert s + 1"
proof -
  from assms obtain p where p: "cyclePercentage d = Some p"
    using newBoostCycle_percentage by blast
  note n = screenData_new[OF p assms]
  have "countSent isBoostAlert (screenData d s) = countSent isBoostAlert s + 1"
    by (simp add: countSent_def n(6))
  with p n(1-6) show ?thesis by blast
qed

theorem new_boost_transition_witness:
  "newBoostCycle (exampleCycle (utf16 ''Was +950 > Now +1129'')) (startup 0)
 \<and> consecutiveNumberFailures (screenData (exampleCycle (utf16 ''Was +950 > Now +1129'')) (startup 0)) = 0
 \<and> lastUniqueBoostTime (screenData (exampleCycle (utf16 ''Was +950 > Now +1129'')) (startup 0)) = 5001
 \<and> filter isBoostAlert (sent (screenData (exampleCycle (utf16 ''Was +950 > Now +1129'')) (startup 0))) =
       [BoostAlert (toDouble (94 / 5)) (Some (utf16 ''+950'')) (Some (utf16 ''+1129''))]"
proof -
  let ?d = "exampleCycle (utf16 ''Was +950 > Now +1129'')"
  have nb: "newBoostCycle ?d (startup 0)" by (rule example_new)
  have e: "sent (startup 0) = []" by (simp add: startup_def)
  from new_boost_transition[OF nb] nb e show ?thesis
    by (simp add: example_percentage example_odds example_fields)
qed

lemma flag_cleared_step:
  assumes "noNewBoostNotified s'" and "\<not> noNewBoostNotified (step e s')"
  shows "\<exists>d. e = ScreenData d \<and> newBoostCycle d s'"
proof (cases e)
  case (ScreenData d)
  have "newBoostCycle d s'"
  proof (rule ccontr)
    assume q: "\<not> newBoostCycle d s'"
    then have "noTransition s' [e]" using ScreenData by simp
    from quiet_step_stale(2)[OF this] ScreenData assms show False by simp
  qed
  with ScreenData show ?thesis by blast
next
  case (NoNewBoostTick t)
  with assms show ?thesis by (simp add: checkNoNewBoost_flag)
next
  case NumberFailureTick
  with assms show ?thesis by (simp add: checkNumberFailures_fields)
qed

text \<open>
  C4, as the code has it. With \<open>lastUniqueBoostTime\<close> at \<open>T\<close> and the stale flag clear,
  a check at \<open>T + NO_NEW_BOOST_TIMEOUT - 1\<close>, and any check up to and including
  \<open>T + NO_NEW_BOOST_TIMEOUT\<close>, sends nothing. Over any run without a new-boost
  transition whose stale checks are all later than \<open>T + NO_NEW_BOOST_TIMEOUT\<close> and
  which has at least one of them, exactly one stale alert is sent. The watch never
  clears its flag, and the only step that clears it is a new-boost transition.
\<close>

theorem stale_watch_once:
  assumes "lastUniqueBoostTime s = T" and "\<not> noNewBoostNotified s"
  shows "sent (checkNoNewBoost (T + NO_NEW_BOOST_TIMEOUT - 1) s) = sent s
     \<and> (\<forall>t. t \<le> T + NO_NEW_BOOST_TIMEOUT \<longrightarrow> sent (checkNoNewBoost t s) = sent s)
     \<and> (noTransition s es
          \<and> (\<forall>e\<in>set es. tickAfter (T + NO_NEW_BOOST_TIMEOUT) e)
          \<and> (\<exists>e\<in>set es. isNoNewBoostTick e)
        \<longrightarrow> countSent isNoNewBoostAlert (run es s) = countSent isNoNewBoostAlert s + 1)
     \<and> (\<forall>t (s'::monitor). noNewBoostNotified s' \<longrightarrow> noNewBoostNotified (checkNoNewBoost t s'))
     \<and> (\<forall>e (s'::monitor). noNewBoostNotified s' \<and> \<not> noNewBoostNotified (step e s')
           \<longrightarrow> (\<exists>d. e = ScreenData d \<and> newBoostCycle d s'))"
proof (intro conjI allI impI)
  show "sent (checkNoNewBoost (T + NO_NEW_BOOST_TIMEOUT - 1) s) = sent s"
    using assms by (simp add: checkNoNewBoost_def Let_def)
next
  fix t assume "t \<le> T + NO_NEW_BOOST_TIMEOUT"
  then show "sent (checkNoNewBoost t s) = sent s"
    using assms by (simp add: checkNoNewBoost_def Let_def)
next
  assume a: "noTransition s es
          \<and> (\<forall>e\<in>set es. tickAfter (T + NO_NEW_BOOST_TIMEOUT) e)
          \<and> (\<exists>e\<in>set es. isNoNewBoostTick e)"
  then have "\<forall>e\<in>set es. tickAfter (lastUniqueBoostTime s + NO_NEW_BOOST_TIMEOUT) e"
    using assms(1) by simp
  from stale_run[OF _ this] a assms(2)
  show "countSent isNoNewBoostAlert (run es s) = countSent isNoNewBoostAlert s + 1"
    by simp
next
  fix t and s' :: monitor assume "noNewBoostNotified s'"
  then show "noNewBoostNotified (checkNoNewBoost t s')" by (simp add: checkNoNewBoost_flag)
next
  fix e and s' :: monitor assume "noNewBoostNotified s' \<and> \<not> noNewBoostNotified (step e s')"
  then show "\<exists>d. e = ScreenData d \<and> newBoostCycle d s'"
    using flag_cleared_step by blast
qed

lemma failing_example:
  "cyclePercentage ((exampleCycle []) \<lparr> cropFailed := True \<rparr>) = None"
  by (simp add: cyclePercentage_def)

theorem stale_watch_once_witness:
  "lastUniqueBoostTime (startup 1000) = 1000 \<and> \<not> noNewBoostNotified (startup 1000)
 \<and> countSent isNoNewBoostAlert
      (run [NoNewBoostTick (1000 + NO_NEW_BOOST_TIMEOUT + 1),
            ScreenData ((exampleCycle []) \<lparr> cropFailed := True \<rparr>),
            NumberFailureTick,
            NoNewBoostTick (1000 + NO_NEW_BOOST_TIMEOUT + 120000)] (startup 1000)) = 1
 \<and> sent (checkNoNewBoost (1000 + NO_NEW_BOOST_TIMEOUT - 1) (startup 1000)) = []"
proof -
  let ?es = "[NoNewBoostTick (1000 + NO_NEW_BOOST_TIMEOUT + 1),
            ScreenData ((exampleCycle []) \<lparr> cropFailed := True \<rparr>),
            NumberFailureTick,
            NoNewBoostTick (1000 + NO_NEW_BOOST_TIMEOUT + 120000)]"
  have a: "lastUniqueBoostTime (startup 1000) = 1000" "\<not> noNewBoostNotified (startup 1000)"
    by (simp_all add: startup_def)
  have b: "noTransition (startup 1000) ?es"
    by (simp add: newBoostCycle_def failing_example)
  have c: "\<forall>e\<in>set ?es. tickAfter (1000 + NO_NEW_BOOST_TIMEOUT) e" by simp
  have d: "\<exists>e\<in>set ?es. isNoNewBoostTick e" by simp
  have e: "sent (startup 1000) = []" by (simp add: startup_def)
  from stale_watch_once[OF a, of ?es] b c d
  have "countSent isNoNewBoostAlert (run ?es (startup 1000)) =
          countSent isNoNewBoostAlert (startup 1000) + 1"
    and "sent (checkNoNewBoost (1000 + NO_NEW_BOOST_TIMEOUT - 1) (startup 1000)) = sent (startup 1000)"
    by blast+
  with a e show ?thesis
    by (simp add: countSent_def)
qed

text \<open>
  The claim as it is written counts a check at exactly \<open>T + STALE_TIMEOUT\<close> among
  those that send the alert. The comparison of the code is strict: a run whose only
  check is made at that time sends nothing.
\<close>

theorem stale_watch_boundary:
  "countSent isNoNewBoostAlert
     (run [NoNewBoostTick (1000 + NO_NEW_BOOST_TIMEOUT)] (startup 1000)) = 0"
  by (simp add: run_def checkNoNewBoost_def startup_def countSent_def)



text \<open>
  C9. A cycle that obtains no percentage, because the crop failed, because the crop
  was too small, or because the odds text gave none, adds exactly 1 to the failure
  counter and leaves \<open>lastUniqueBoostTime\<close> as it was. A cycle that obtains a
  percentage, for a new boost or a repeated one, sets the counter to 0 and clears
  the failure flag.
\<close>

theorem cycle_failure_counter:
  "(cropFailed d \<or> cropTooSmall d \<or> boostPercentage (detectOddsComparison (oddsOcr d)) = None
      \<longrightarrow> consecutiveNumberFailures (screenData d s) = consecutiveNumberFailures s + 1
        \<and> lastUniqueBoostTime (screenData d s) = lastUniqueBoostTime s)
 \<and> (\<not> cropFailed d \<and> \<not> cropTooSmall d
       \<and> boostPercentage (detectOddsComparison (oddsOcr d)) \<noteq> None
      \<longrightarrow> consecutiveNumberFailures (screenData d s) = 0
        \<and> \<not> numberFailureNotified (screenData d s))"
proof (intro conjI impI)
  assume "cropFailed d \<or> cropTooSmall d \<or> boostPercentage (detectOddsComparison (oddsOcr d)) = None"
  then have n: "cyclePercentage d = None" by (auto simp add: cyclePercentage_def)
  show "consecutiveNumberFailures (screenData d s) = consecutiveNumberFailures s + 1"
    and "lastUniqueBoostTime (screenData d s) = lastUniqueBoostTime s"
    using n by (simp_all add: screenData_failed)
next
  assume "\<not> cropFailed d \<and> \<not> cropTooSmall d
       \<and> boostPercentage (detectOddsComparison (oddsOcr d)) \<noteq> None"
  then obtain p where p: "cyclePercentage d = Some p" by (auto simp add: cyclePercentage_def)
  show "consecutiveNumberFailures (screenData d s) = 0"
    and "\<not> numberFailureNotified (screenData d s)"
    using screenData_new(1,4)[OF p] screenData_repeat(1,4)[OF p] by blast+
qed

theorem cycle_failure_counter_witness:
  "cropFailed ((exampleCycle []) \<lparr> cropFailed := True \<rparr>)
 \<and> consecutiveNumberFailures
      (screenData ((exampleCycle []) \<lparr> cropFailed := True \<rparr>)
         ((startup 0) \<lparr> consecutiveNumberFailures := 4 \<rparr>)) = 5
 \<and> boostPercentage (detectOddsComparison (oddsOcr (exampleCycle (utf16 ''Was +950 > Now +1129'')))) \<noteq> None
 \<and> consecutiveNumberFailures
      (screenData (exampleCycle (utf16 ''Was +950 > Now +1129''))
         ((startup 0) \<lparr> consecutiveNumberFailures := 4, numberFailureNotified := True \<rparr>)) = 0
 \<and> \<not> numberFailureNotified
      (screenData (exampleCycle (utf16 ''Was +950 > Now +1129''))
         ((startup 0) \<lparr> consecutiveNumberFailures := 4, numberFailureNotified := True \<rparr>))"
proof -
  let ?f = "(exampleCycle []) \<lparr> cropFailed := True \<rparr>"
  let ?d = "exampleCycle (utf16 ''Was +950 > Now +1129'')"
  have a: "cropFailed ?f" by simp
  have b: "boostPercentage (detectOddsComparison (oddsOcr ?d)) \<noteq> None"
    using example_percentage by (simp add: cyclePercentage_def example_fields)
  from cycle_failure_counter[of ?f "(startup 0) \<lparr> consecutiveNumberFailures := 4 \<rparr>"]
       cycle_failure_counter[of ?d "(startup 0) \<lparr> consecutiveNumberFailures := 4, numberFailureNotified := True \<rparr>"]
       a b
  show ?thesis by (simp add: example_fields)
qed

subsection \<open>Symmetry and whole numbers\<close>

lemma roundHalfEven_minus: "roundHalfEven (- y) = - roundHalfEven y"
proof (cases "y = of_int \<lfloor>y\<rfloor>")
  case True
  then obtain j where "y = of_int j" by blast
  then have "- y = of_int (- j)" by simp
  with \<open>y = of_int j\<close> show ?thesis by (simp only: roundHalfEven_int)
next
  case False
  let ?f = "\<lfloor>y\<rfloor>"
  have c: "\<lceil>y\<rceil> = ?f + 1" using False by (simp add: ceiling_altdef)
  have fm: "\<lfloor>- y\<rfloor> = - ?f - 1" using c by (simp add: floor_minus)
  have r0: "0 < y - of_int ?f" using False of_int_floor_le[of y] by linarith
  have rm: "- y - of_int (- ?f - 1) = 1 - (y - of_int ?f)" by simp
  have ev: "even (- ?f - 1) = odd ?f" by simp
  show ?thesis
    unfolding roundHalfEven_def Let_def fm rm ev
    by (auto simp add: not_less)
qed

lemma expo_minus: "expo (- x) = expo x"
  by (simp add: expo_def)

lemma roundToDouble_minus: "roundToDouble (- x) = - roundToDouble x"
  by (simp add: roundToDouble_def ulpExponent_def expo_minus roundHalfEven_minus)

lemma roundToDouble_whole:
  assumes "\<bar>v\<bar> < 2 ^ 53"
  shows "roundToDouble (of_int v) = of_int v"
proof (cases "0 \<le> v")
  case True
  with assms show ?thesis by (intro roundToDouble_int) simp_all
next
  case False
  with assms have "0 \<le> - v" "- v < 2 ^ 53" by simp_all
  then have "roundToDouble (of_int (- v)) = of_int (- v)" by (rule roundToDouble_int)
  then have "roundToDouble (- of_int v) = - of_int v" by simp
  then show ?thesis by (simp only: roundToDouble_minus)
qed

section \<open>Reading numbers from odds strings\<close>

lemma foldl_decimal_nonneg:
  "0 \<le> acc \<Longrightarrow> \<forall>c\<in>set ds. isDigit c \<Longrightarrow> 0 \<le> foldl (\<lambda>acc c. 10 * acc + digitVal c) acc ds"
  by (induction ds arbitrary: acc) (auto simp add: isDigit_def digitVal_def)

lemma decimalValue_nonneg: "\<forall>c\<in>set ds. isDigit c \<Longrightarrow> 0 \<le> decimalValue ds"
  by (simp add: decimalValue_def foldl_decimal_nonneg)

lemma digits_no_space: "isDigit c \<Longrightarrow> \<not> isSpace c"
  by (auto simp add: isDigit_def isSpace_def)

lemma digits_dropWhile: "digits ds \<Longrightarrow> dropWhile isSpace ds = ds"
  by (cases ds) (auto simp add: digits_def digits_no_space)

lemma digits_takeWhile: "digits ds \<Longrightarrow> takeWhile isDigit ds = ds"
  by (simp add: digits_def)

lemma digits_hd: "digits ds \<Longrightarrow> isDigit (hd ds)"
  by (cases ds) (auto simp add: digits_def)

lemma digits_not_hex: "digits ds \<Longrightarrow> \<not> startsWith ds [48, c] \<or> isDigit c"
proof (cases ds)
  case Nil
  then show ?thesis by (simp add: startsWith_def)
next
  case (Cons a as)
  assume d: "digits ds"
  show ?thesis
  proof (cases as)
    case Nil
    with Cons show ?thesis by (simp add: startsWith_def)
  next
    case (Cons b bs)
    with \<open>ds = a # as\<close> d show ?thesis by (auto simp add: startsWith_def digits_def)
  qed
qed

lemma parseInt_digits:
  assumes "digits ds"
  shows "parseInt ds = toDouble (of_int (decimalValue ds))"
proof -
  have h: "isDigit (hd ds)" using assms by (rule digits_hd)
  then have s: "hd ds \<noteq> 43" "hd ds \<noteq> 45" by (auto simp add: isDigit_def)
  have x: "\<not> startsWith ds [48, 120]" "\<not> startsWith ds [48, 88]"
    using digits_not_hex[OF assms, of 120] digits_not_hex[OF assms, of 88]
    by (auto simp add: isDigit_def)
  have n: "ds \<noteq> []" using assms by (simp add: digits_def)
  show ?thesis
    using s x n by (simp add: parseInt_def digits_dropWhile[OF assms] digits_takeWhile[OF assms])
qed

lemma stripSigns_digits: "digits ds \<Longrightarrow> stripSigns ds = ds"
  by (auto simp add: stripSigns_def digits_def isDigit_def intro!: filter_True)

lemma keepNumeric_digits: "digits ds \<Longrightarrow> keepNumeric ds = ds"
  by (auto simp add: keepNumeric_def digits_def intro!: filter_True)

lemma sign_literals: "utf16 ''+'' = [43]" "utf16 ''-'' = [45]"
  by (simp_all add: utf16_def)

lemma digits_not_Infinity: "digits ds \<Longrightarrow> \<not> startsWith ds (utf16 ''Infinity'')"
  by (rule not_Infinity) (auto simp add: digits_def)

lemma parseFloat_digits:
  assumes "digits ds"
  shows "parseFloat ds = Val (roundToDouble (of_int (decimalValue ds)))"
proof -
  have h: "isDigit (hd ds)" using assms by (rule digits_hd)
  then have s: "hd ds \<noteq> 43" "hd ds \<noteq> 45" by (auto simp add: isDigit_def)
  have n: "ds \<noteq> []" using assms by (simp add: digits_def)
  have z: "decimalValue [] = 0" by (simp add: decimalValue_def)
  show ?thesis
    using s n digits_not_Infinity[OF assms]
    by (simp add: parseFloat_def digits_dropWhile[OF assms] digits_takeWhile[OF assms] z pow10_def)
qed

lemma parseFloat_minus_digits:
  assumes "digits ds"
  shows "parseFloat (45 # ds) = Val (roundToDouble (- of_int (decimalValue ds)))"
proof -
  have n: "ds \<noteq> []" using assms by (simp add: digits_def)
  have z: "decimalValue [] = 0" by (simp add: decimalValue_def)
  have sp: "\<not> isSpace 45" by (simp add: isSpace_def)
  show ?thesis
    using n digits_not_Infinity[OF assms] sp
    by (simp add: parseFloat_def digits_takeWhile[OF assms] z pow10_def)
qed

lemma rawValue_signed:
  assumes "digits ds" and "decimalValue ds < 2 ^ 53"
  shows "parseFloat (keepNumeric (utf16 ''+'' @ ds)) = Val (of_int (decimalValue ds))"
    and "parseFloat (keepNumeric (utf16 ''-'' @ ds)) = Val (- of_int (decimalValue ds))"
proof -
  have "0 \<le> decimalValue ds" using assms(1) by (simp add: decimalValue_nonneg digits_def)
  with assms(2) have w: "\<bar>decimalValue ds\<bar> < 2 ^ 53" by simp
  note r = roundToDouble_whole[OF w]
  have k: "keepNumeric (utf16 ''+'' @ ds) = ds" "keepNumeric (utf16 ''-'' @ ds) = 45 # ds"
    using keepNumeric_digits[OF assms(1)]
    by (simp_all add: sign_literals keepNumeric_def isDigit_def)
  show "parseFloat (keepNumeric (utf16 ''+'' @ ds)) = Val (of_int (decimalValue ds))"
    by (simp only: k parseFloat_digits[OF assms(1)] r)
  show "parseFloat (keepNumeric (utf16 ''-'' @ ds)) = Val (- of_int (decimalValue ds))"
    by (simp only: k parseFloat_minus_digits[OF assms(1)] roundToDouble_minus r)
qed

section \<open>The boost calculator\<close>

lemma americanToDecimal_plus:
  assumes "digits ds"
  shows "americanToDecimal (utf16 ''+'' @ ds) = num_add (num_div (parseInt ds) (Val 100)) (Val 1)"
proof -
  have "stripSigns (utf16 ''+'' @ ds) = ds"
    using stripSigns_digits[OF assms] by (simp add: sign_literals stripSigns_def)
  then show ?thesis
    by (simp add: americanToDecimal_def sign_literals startsWith_def)
qed

lemma americanToDecimal_minus:
  assumes "digits ds"
  shows "americanToDecimal (utf16 ''-'' @ ds) = num_add (num_div (Val 100) (parseInt ds)) (Val 1)"
proof -
  have "stripSigns (utf16 ''-'' @ ds) = ds"
    using stripSigns_digits[OF assms] by (simp add: sign_literals stripSigns_def)
  then show ?thesis
    by (simp add: americanToDecimal_def sign_literals startsWith_def)
qed

lemma americanToDecimal_unsigned:
  assumes "digits ds"
  shows "americanToDecimal ds = num_add (num_div (parseInt ds) (Val 100)) (Val 1)"
proof -
  have h: "isDigit (hd ds)" using assms by (rule digits_hd)
  then have s: "hd ds \<noteq> 43" "hd ds \<noteq> 45" by (auto simp add: isDigit_def)
  have n: "ds \<noteq> []" using assms by (simp add: digits_def)
  from s n have "\<not> startsWith ds [43]" "\<not> startsWith ds [45]"
    by (cases ds; simp add: startsWith_def)+
  then show ?thesis
    by (simp add: americanToDecimal_def stripSigns_digits[OF assms] sign_literals)
qed

lemma positive_side:
  assumes "v = PosInf \<or> (\<exists>y. v = Val y \<and> 1 \<le> y)"
  shows "num_less (Val 1) (num_add (num_div v (Val 100)) (Val 1))"
  using assms
proof
  assume "v = PosInf"
  then show ?thesis by (simp add: inf_of_sign_def)
next
  assume "\<exists>y. v = Val y \<and> 1 \<le> y"
  then obtain y where y: "v = Val y" "1 \<le> y" by blast
  have "(2::rat) powi (- 7) = 1 / 128" by (simp add: power_int_minus_divide)
  moreover have "1 / 128 \<le> y / 100" using y(2) by simp
  ultimately have "(2::rat) powi (- 7) \<le> y / 100" by simp
  from toDouble_ge_pow2[OF _ this]
  have "toDouble (y / 100) = PosInf \<or> (\<exists>z. toDouble (y / 100) = Val z \<and> 1 / 128 \<le> z)"
    by (simp add: power_int_minus_divide)
  then show ?thesis
  proof
    assume "toDouble (y / 100) = PosInf"
    with y show ?thesis by simp
  next
    assume "\<exists>z. toDouble (y / 100) = Val z \<and> 1 / 128 \<le> z"
    then obtain z where z: "toDouble (y / 100) = Val z" "1 / 128 \<le> z" by blast
    from z(2) have "1 + 1 / 128 \<le> z + 1" by simp
    from toDouble_gt_1[OF this] y z show ?thesis by simp
  qed
qed

lemma one_more:
  assumes "0 \<le> z"
  shows "num_less (Val 0) (toDouble (z + 1))"
proof -
  from assms have "(2::rat) powi 0 \<le> z + 1" by simp
  from toDouble_ge_pow2[OF _ this]
  have "toDouble (z + 1) = PosInf \<or> (\<exists>w. toDouble (z + 1) = Val w \<and> 1 \<le> w)" by simp
  then show ?thesis by auto
qed

lemma negative_side:
  assumes "v = PosInf \<or> (\<exists>y. v = Val y \<and> 1 \<le> y)"
  shows "num_less (Val 0) (num_add (num_div (Val 100) v) (Val 1))"
  using assms
proof
  assume "v = PosInf"
  then show ?thesis using one_more[of 0] by simp
next
  assume "\<exists>y. v = Val y \<and> 1 \<le> y"
  then obtain y where y: "v = Val y" "1 \<le> y" by blast
  then have "0 \<le> 100 / y" by simp
  from toDouble_nonneg[OF this]
  have "toDouble (100 / y) = PosInf \<or> (\<exists>z. toDouble (100 / y) = Val z \<and> 0 \<le> z)" .
  then show ?thesis
  proof
    assume "toDouble (100 / y) = PosInf"
    with y show ?thesis by simp
  next
    assume "\<exists>z. toDouble (100 / y) = Val z \<and> 0 \<le> z"
    then obtain z where z: "toDouble (100 / y) = Val z" "0 \<le> z" by blast
    from one_more[OF z(2)] y z show ?thesis by simp
  qed
qed

lemma example_decimals_150:
  "americanToDecimal (utf16 ''+150'') = Val (5 / 2)"
  "americanToDecimal (utf16 ''-150'') = Val (3752999689475413 / 2251799813685248)"
  "americanToDecimal (utf16 ''150'') = Val (5 / 2)"
  by code_simp+

text \<open>
  C7. The digits of an odds string are read as the double nearest to their value,
  which is the value itself below \<open>2^53\<close>. When the value is not zero, a leading \<open>+\<close>
  gives \<open>value / 100 + 1\<close> in double arithmetic, which is greater than 1; a leading \<open>-\<close>
  gives \<open>100 / value + 1\<close> with the value taken without its sign, which is greater
  than 0; and digits without a sign are converted as with a \<open>+\<close>.
\<close>

theorem americanToDecimal_signs:
  assumes "digits ds" and "decimalValue ds \<noteq> 0"
  shows "parseInt ds = toDouble (of_int (decimalValue ds))
     \<and> (decimalValue ds < 2 ^ 53 \<longrightarrow> parseInt ds = Val (of_int (decimalValue ds)))
     \<and> americanToDecimal (utf16 ''+'' @ ds) = num_add (num_div (parseInt ds) (Val 100)) (Val 1)
     \<and> num_less (Val 1) (americanToDecimal (utf16 ''+'' @ ds))
     \<and> americanToDecimal (utf16 ''-'' @ ds) = num_add (num_div (Val 100) (parseInt ds)) (Val 1)
     \<and> num_less (Val 0) (americanToDecimal (utf16 ''-'' @ ds))
     \<and> americanToDecimal ds = americanToDecimal (utf16 ''+'' @ ds)"
proof -
  have nn: "0 \<le> decimalValue ds" using assms(1) by (simp add: decimalValue_def foldl_decimal_nonneg digits_def)
  with assms(2) have "1 \<le> decimalValue ds" by simp
  then have "(2::rat) powi 0 \<le> of_int (decimalValue ds)" by simp
  from toDouble_ge_pow2[OF _ this]
  have v: "parseInt ds = PosInf \<or> (\<exists>y. parseInt ds = Val y \<and> 1 \<le> y)"
    by (simp add: parseInt_digits[OF assms(1)])
  have ex: "decimalValue ds < 2 ^ 53 \<longrightarrow> parseInt ds = Val (of_int (decimalValue ds))"
    using nn by (simp add: parseInt_digits[OF assms(1)] toDouble_int)
  show ?thesis
    using positive_side[OF v] negative_side[OF v] ex
    by (simp add: americanToDecimal_plus[OF assms(1)] americanToDecimal_minus[OF assms(1)]
          americanToDecimal_unsigned[OF assms(1)] parseInt_digits[OF assms(1)])
qed

theorem americanToDecimal_signs_witness:
  "digits (utf16 ''150'') \<and> decimalValue (utf16 ''150'') \<noteq> 0
 \<and> parseInt (utf16 ''150'') = Val 150
 \<and> americanToDecimal (utf16 ''+150'') = Val (5 / 2)
 \<and> num_less (Val 1) (americanToDecimal (utf16 ''+150''))
 \<and> americanToDecimal (utf16 ''-150'') = Val (3752999689475413 / 2251799813685248)
 \<and> num_less (Val 0) (americanToDecimal (utf16 ''-150''))
 \<and> americanToDecimal (utf16 ''150'') = Val (5 / 2)"
proof -
  have v: "decimalValue (utf16 ''150'') = 150" by code_simp
  have d: "digits (utf16 ''150'')" by code_simp
  have n: "decimalValue (utf16 ''150'') \<noteq> 0" using v by simp
  have e: "utf16 ''+'' @ utf16 ''150'' = utf16 ''+150''" "utf16 ''-'' @ utf16 ''150'' = utf16 ''-150''"
    by (simp_all add: utf16_def)
  from americanToDecimal_signs[OF d n]
  have "decimalValue (utf16 ''150'') < 2 ^ 53 \<longrightarrow>
          parseInt (utf16 ''150'') = Val (of_int (decimalValue (utf16 ''150'')))"
    and "num_less (Val 1) (americanToDecimal (utf16 ''+'' @ utf16 ''150''))"
    and "num_less (Val 0) (americanToDecimal (utf16 ''-'' @ utf16 ''150''))"
    by blast+
  then have "parseInt (utf16 ''150'') = Val 150"
    and "num_less (Val 1) (americanToDecimal (utf16 ''+150''))"
    and "num_less (Val 0) (americanToDecimal (utf16 ''-150''))"
    unfolding v e by simp_all
  with d n example_decimals_150 show ?thesis by blast
qed

lemma foldl_hex_nonneg:
  "0 \<le> acc \<Longrightarrow>
     0 \<le> foldl (\<lambda>acc c. 16 * acc + (case hexVal c of Some v \<Rightarrow> v | None \<Rightarrow> 0)) acc ds"
proof (induction ds arbitrary: acc)
  case Nil
  then show ?case by simp
next
  case (Cons c ds)
  have "0 \<le> (case hexVal c of Some v \<Rightarrow> v | None \<Rightarrow> 0)"
    by (auto simp add: hexVal_def isDigit_def)
  with Cons.prems have "0 \<le> 16 * acc + (case hexVal c of Some v \<Rightarrow> v | None \<Rightarrow> 0)" by simp
  from Cons.IH[OF this] show ?case by simp
qed

lemma parseInt_stripSigns:
  "parseInt (stripSigns s) = NaN \<or> parseInt (stripSigns s) = PosInf
     \<or> (\<exists>v. parseInt (stripSigns s) = Val v \<and> 0 \<le> v)"
proof -
  let ?s1 = "dropWhile isSpace (stripSigns s)"
  have "set ?s1 \<subseteq> set (stripSigns s)" by (rule set_dropWhileD[THEN subsetI])
  then have m: "45 \<notin> set ?s1" by (auto simp add: stripSigns_def)
  have h: "\<not> (?s1 \<noteq> [] \<and> hd ?s1 = 45)"
  proof
    assume "?s1 \<noteq> [] \<and> hd ?s1 = 45"
    then have "45 \<in> set ?s1" by (metis hd_in_set)
    with m show False by simp
  qed
  from h have neg: "(?s1 \<noteq> [] \<and> hd ?s1 = 45) = False" by blast
  have d: "0 \<le> decimalValue (takeWhile isDigit xs)" for xs
    by (rule decimalValue_nonneg) (auto dest: set_takeWhileD)
  have x: "0 \<le> hexValue xs" for xs
    by (simp add: hexValue_def foldl_hex_nonneg)
  have t: "toDouble (of_int n) = PosInf \<or> (\<exists>v. toDouble (of_int n) = Val v \<and> 0 \<le> v)"
    if "0 \<le> n" for n :: int
    using that by (intro toDouble_nonneg) simp
  show ?thesis
    by (simp only: parseInt_def Let_def neg if_False) (auto simp add: d x t)
qed

lemma at_least_one:
  assumes "0 \<le> z"
  shows "toDouble (z + 1) = PosInf \<or> (\<exists>w. toDouble (z + 1) = Val w \<and> 1 \<le> w)"
proof -
  from assms have "(2::rat) powi 0 \<le> z + 1" by simp
  from toDouble_ge_pow2[OF _ this] show ?thesis by simp
qed

lemma quotient_plus_one:
  assumes "0 \<le> q" and "num_add (toDouble q) (Val 1) = Val a"
  shows "1 \<le> a"
proof -
  from toDouble_nonneg[OF assms(1)] show ?thesis
  proof
    assume "toDouble q = PosInf"
    with assms(2) show ?thesis by simp
  next
    assume "\<exists>y. toDouble q = Val y \<and> 0 \<le> y"
    then obtain y where y: "toDouble q = Val y" "0 \<le> y" by blast
    from at_least_one[OF y(2)] assms(2) y(1) show ?thesis by auto
  qed
qed

lemma americanToDecimal_ge_1:
  assumes "americanToDecimal s = Val a"
  shows "1 \<le> a"
proof -
  let ?v = "parseInt (stripSigns s)"
  consider (nan) "?v = NaN" | (inf) "?v = PosInf" | (val) v where "?v = Val v" "0 \<le> v"
    using parseInt_stripSigns[of s] by blast
  then show ?thesis
  proof cases
    case nan
    with assms show ?thesis by (simp add: americanToDecimal_def Let_def split: if_splits)
  next
    case inf
    with assms have "num_add (Val 0) (Val 1) = Val a"
      by (simp add: americanToDecimal_def Let_def inf_of_sign_def split: if_splits)
    then have "num_add (toDouble 0) (Val 1) = Val a"
      by (simp add: toDouble_def roundToDouble_def)
    then show ?thesis by (intro quotient_plus_one[of 0]) simp_all
  next
    case val
    show ?thesis
    proof (cases "v = 0")
      case True
      with assms val have "num_add (toDouble (0 / 100)) (Val 1) = Val a"
        by (auto simp add: americanToDecimal_def inf_of_sign_def Let_def split: if_splits)
      then show ?thesis by (intro quotient_plus_one[of "0 / 100"]) simp_all
    next
      case False
      with val have vp: "0 < v" by simp
      from assms val False
      have "num_add (toDouble (v / 100)) (Val 1) = Val a \<or> num_add (toDouble (100 / v)) (Val 1) = Val a"
        by (auto simp add: americanToDecimal_def Let_def split: if_splits)
      then show ?thesis
      proof
        assume "num_add (toDouble (v / 100)) (Val 1) = Val a"
        then show ?thesis using vp by (intro quotient_plus_one[of "v / 100"]) simp_all
      next
        assume "num_add (toDouble (100 / v)) (Val 1) = Val a"
        then show ?thesis using vp by (intro quotient_plus_one[of "100 / v"]) simp_all
      qed
    qed
  qed
qed

lemma example_decimal_boost:
  "calculateActualBoostPercentage (utf16 ''+100'') (utf16 ''+150'') = Val 25"
  by code_simp

lemma example_decimal_boost_rounded:
  "calculateActualBoostPercentage (utf16 ''+220'') (utf16 ''+230'')
     = Val (3512807709348987 / 1125899906842624)"
  "toDouble (78 / 25) = Val (3512807709348987 / 1125899906842624)"
  by code_simp+

text \<open>
  C6. The verifier returns as calculated percentage the value of
  \<open>((decimal(post) - decimal(pre)) / decimal(pre)) * 100\<close>, multiplied by 100, rounded
  to a whole number and divided by 100, every step in double arithmetic; as
  discrepancy the absolute difference of that value and the detected percentage;
  and as significance whether the discrepancy is at least the threshold, which is
  10 when the caller gives none. The decimal odds of the first argument, when
  finite, are at least 1, so the quotient is never a division by zero. The odds
  \<open>+100\<close> and \<open>+150\<close> give 25; the odds \<open>+220\<close> and \<open>+230\<close> give the double 3.12.
\<close>

theorem verifyBoostAccuracy_formula:
  "(let a = americanToDecimal pre; b = americanToDecimal post;
        c = num_div (Math_round (num_mul (num_mul (num_div (num_sub b a) a) (Val 100)) (Val 100)))
              (Val 100);
        t = (case threshold of None \<Rightarrow> Val 10 | Some x \<Rightarrow> x)
    in calculateActualBoostPercentage pre post = c
     \<and> verifyBoostAccuracy d pre post threshold =
         \<lparr> actualBoostPercentage = c,
           detectedBoostPercentage = d,
           discrepancy = num_abs (num_sub c d),
           isSignificantDiscrepancy = num_ge (num_abs (num_sub c d)) t,
           calcWasOdds = pre,
           calcNowOdds = post \<rparr>)
 \<and> (\<forall>a. americanToDecimal pre = Val a \<longrightarrow> 1 \<le> a)
 \<and> (\<forall>y. num_mul (num_mul (num_div (num_sub (americanToDecimal post) (americanToDecimal pre))
                        (americanToDecimal pre)) (Val 100)) (Val 100) = Val y
        \<longrightarrow> calculateActualBoostPercentage pre post = toDouble (of_int \<lfloor>y + 1 / 2\<rfloor> / 100))
 \<and> calculateActualBoostPercentage (utf16 ''+100'') (utf16 ''+150'') = Val 25
 \<and> calculateActualBoostPercentage (utf16 ''+220'') (utf16 ''+230'') = toDouble (78 / 25)"
proof (intro conjI allI impI)
  show "let a = americanToDecimal pre; b = americanToDecimal post;
        c = num_div (Math_round (num_mul (num_mul (num_div (num_sub b a) a) (Val 100)) (Val 100)))
              (Val 100);
        t = (case threshold of None \<Rightarrow> Val 10 | Some x \<Rightarrow> x)
    in calculateActualBoostPercentage pre post = c
     \<and> verifyBoostAccuracy d pre post threshold =
         \<lparr> actualBoostPercentage = c,
           detectedBoostPercentage = d,
           discrepancy = num_abs (num_sub c d),
           isSignificantDiscrepancy = num_ge (num_abs (num_sub c d)) t,
           calcWasOdds = pre,
           calcNowOdds = post \<rparr>"
    by (simp add: calculateActualBoostPercentage_def verifyBoostAccuracy_def Let_def)
next
  fix a assume "americanToDecimal pre = Val a"
  then show "1 \<le> a" by (rule americanToDecimal_ge_1)
next
  fix y
  assume "num_mul (num_mul (num_div (num_sub (americanToDecimal post) (americanToDecimal pre))
                        (americanToDecimal pre)) (Val 100)) (Val 100) = Val y"
  then show "calculateActualBoostPercentage pre post = toDouble (of_int \<lfloor>y + 1 / 2\<rfloor> / 100)"
    by (simp add: calculateActualBoostPercentage_def Let_def)
next
  show "calculateActualBoostPercentage (utf16 ''+100'') (utf16 ''+150'') = Val 25"
    by (rule example_decimal_boost)
next
  show "calculateActualBoostPercentage (utf16 ''+220'') (utf16 ''+230'') = toDouble (78 / 25)"
    by (simp only: example_decimal_boost_rounded)
qed

lemma example_verify:
  "americanToDecimal (utf16 ''-110'') = Val (2149445276699555 / 1125899906842624)"
  "calculateActualBoostPercentage (utf16 ''-110'') (utf16 ''+120'')
     = Val (8579357290140795 / 562949953421312)"
  "num_abs (num_sub (Val (8579357290140795 / 562949953421312))
                    (Val (7104428412176957 / 281474976710656)))
     = Val (5629499534213119 / 562949953421312)"
  "toDouble (631 / 25) = Val (7104428412176957 / 281474976710656)"
  by code_simp+

theorem verifyBoostAccuracy_formula_witness:
  "americanToDecimal (utf16 ''-110'') = Val (2149445276699555 / 1125899906842624)
 \<and> 1 \<le> (2149445276699555 / 1125899906842624 :: rat)
 \<and> actualBoostPercentage
      (verifyBoostAccuracy (toDouble (631 / 25)) (utf16 ''-110'') (utf16 ''+120'') None)
     = Val (8579357290140795 / 562949953421312)
 \<and> discrepancy
      (verifyBoostAccuracy (toDouble (631 / 25)) (utf16 ''-110'') (utf16 ''+120'') None)
     = Val (5629499534213119 / 562949953421312)
 \<and> \<not> isSignificantDiscrepancy
      (verifyBoostAccuracy (toDouble (631 / 25)) (utf16 ''-110'') (utf16 ''+120'') None)"
proof -
  note t = verifyBoostAccuracy_formula[of "utf16 ''-110''" "utf16 ''+120''" None "toDouble (631 / 25)"]
  from t have c: "calculateActualBoostPercentage (utf16 ''-110'') (utf16 ''+120'') =
      num_div (Math_round (num_mul (num_mul (num_div
        (num_sub (americanToDecimal (utf16 ''+120'')) (americanToDecimal (utf16 ''-110'')))
        (americanToDecimal (utf16 ''-110''))) (Val 100)) (Val 100))) (Val 100)"
    by (simp add: Let_def)
  from t have v: "verifyBoostAccuracy (toDouble (631 / 25)) (utf16 ''-110'') (utf16 ''+120'') None =
         \<lparr> actualBoostPercentage = calculateActualBoostPercentage (utf16 ''-110'') (utf16 ''+120''),
           detectedBoostPercentage = toDouble (631 / 25),
           discrepancy = num_abs (num_sub (calculateActualBoostPercentage (utf16 ''-110'') (utf16 ''+120''))
                                          (toDouble (631 / 25))),
           isSignificantDiscrepancy =
             num_ge (num_abs (num_sub (calculateActualBoostPercentage (utf16 ''-110'') (utf16 ''+120''))
                                      (toDouble (631 / 25)))) (Val 10),
           calcWasOdds = utf16 ''-110'',
           calcNowOdds = utf16 ''+120'' \<rparr>"
    by (simp add: Let_def)
  from t example_verify(1) have g: "1 \<le> (2149445276699555 / 1125899906842624 :: rat)" by blast
  show ?thesis
    using g by (simp add: v[unfolded example_verify] example_verify num_ge_def strict_eq_def)
qed

section \<open>The percentage of a cycle\<close>

lemma boostPercentage_plain:
  "boostPercentage oc =
     (case (originalOdds oc, boostedOdds oc) of
        (Some orig, Some boosted) \<Rightarrow>
          (let was = parseFloat (keepNumeric orig); now = parseFloat (keepNumeric boosted)
           in if orig \<noteq> [] \<and> boosted \<noteq> [] \<and> was \<noteq> NaN \<and> now \<noteq> NaN \<and> was \<noteq> Val 0
              then Some (num_div (Math_round (num_mul (num_mul (num_div (num_sub now was) was)
                           (Val 100)) (Val 10))) (Val 10))
              else None)
      | _ \<Rightarrow> None)"
proof (cases "originalOdds oc")
  case None
  then show ?thesis by (simp add: boostPercentage_def)
next
  case o: (Some orig)
  show ?thesis
  proof (cases "boostedOdds oc")
    case None
    then show ?thesis using o by (simp add: boostPercentage_def)
  next
    case b: (Some boosted)
    show ?thesis
      using o b
      by (auto simp add: boostPercentage_def isNaN_def strict_eq_def Let_def)
  qed
qed

lemma reconcile_ignores_boostImage: "reconcile (d\<lparr> boostImage := img \<rparr>) p s = reconcile d p s"
  by (simp add: reconcile_def Let_def)

lemma screenData_ignores_boostImage: "screenData (d\<lparr> boostImage := img \<rparr>) s = screenData d s"
  by (simp add: screenData_def reconcile_ignores_boostImage Let_def split: option.split)

lemma example_raw_boost:
  "boostPercentage \<lparr> originalOdds = Some (utf16 ''+100''), boostedOdds = Some (utf16 ''+150''),
       detectedText = None \<rparr> = Some (Val 50)"
  "boostPercentage \<lparr> originalOdds = Some (utf16 ''+160''), boostedOdds = Some (utf16 ''+206''),
       detectedText = None \<rparr> = Some (toDouble (287 / 10))"
  by code_simp+

text \<open>
  C10. The percentage of a cycle is \<open>((now - was) / was) * 100\<close>, multiplied by 10,
  rounded to a whole number and divided by 10, every step in double arithmetic, on
  the odds strings read as signed numbers (a \<open>+\<close> is dropped, a \<open>-\<close> kept; digits
  below \<open>2^53\<close> are read exactly). It is absent when an odds string is missing or
  empty, when one of them does not read as a number, or when the ``was'' value is
  0. It is this percentage that the boost alert of a new-boost transition carries,
  a cycle without it counts as a failure and sends no boost alert, and the boost
  image of the payload has no influence on the cycle. No decimal odds are involved:
  from \<open>+100\<close> to \<open>+150\<close> the cycle obtains 50, where the boost calculator obtains 25;
  from \<open>+160\<close> to \<open>+206\<close> it obtains the double 28.7.
\<close>

theorem cycle_percentage_raw_odds:
  "boostPercentage oc =
     (case (originalOdds oc, boostedOdds oc) of
        (Some orig, Some boosted) \<Rightarrow>
          (let was = parseFloat (keepNumeric orig); now = parseFloat (keepNumeric boosted)
           in if orig \<noteq> [] \<and> boosted \<noteq> [] \<and> was \<noteq> NaN \<and> now \<noteq> NaN \<and> was \<noteq> Val 0
              then Some (num_div (Math_round (num_mul (num_mul (num_div (num_sub now was) was)
                           (Val 100)) (Val 10))) (Val 10))
              else None)
      | _ \<Rightarrow> None)
 \<and> (digits ds \<and> decimalValue ds < 2 ^ 53 \<longrightarrow>
       parseFloat (keepNumeric (utf16 ''+'' @ ds)) = Val (of_int (decimalValue ds))
     \<and> parseFloat (keepNumeric (utf16 ''-'' @ ds)) = Val (- of_int (decimalValue ds)))
 \<and> (newBoostCycle d s \<longrightarrow>
       (\<exists>p. boostPercentage (detectOddsComparison (oddsOcr d)) = Some p
          \<and> filter isBoostAlert (sent (screenData d s)) =
              filter isBoostAlert (sent s) @
                [BoostAlert p (originalOdds (detectOddsComparison (oddsOcr d)))
                              (boostedOdds (detectOddsComparison (oddsOcr d)))]))
 \<and> (\<not> cropFailed d \<and> \<not> cropTooSmall d
        \<and> boostPercentage (detectOddsComparison (oddsOcr d)) = None \<longrightarrow>
       consecutiveNumberFailures (screenData d s) = consecutiveNumberFailures s + 1
     \<and> filter isBoostAlert (sent (screenData d s)) = filter isBoostAlert (sent s))
 \<and> screenData (d\<lparr> boostImage := img \<rparr>) s = screenData d s
 \<and> boostPercentage \<lparr> originalOdds = Some (utf16 ''+100''), boostedOdds = Some (utf16 ''+150''),
       detectedText = None \<rparr> = Some (Val 50)
 \<and> calculateActualBoostPercentage (utf16 ''+100'') (utf16 ''+150'') = Val 25
 \<and> boostPercentage \<lparr> originalOdds = Some (utf16 ''+160''), boostedOdds = Some (utf16 ''+206''),
       detectedText = None \<rparr> = Some (toDouble (287 / 10))"
proof (intro conjI impI)
  show "boostPercentage oc =
     (case (originalOdds oc, boostedOdds oc) of
        (Some orig, Some boosted) \<Rightarrow>
          (let was = parseFloat (keepNumeric orig); now = parseFloat (keepNumeric boosted)
           in if orig \<noteq> [] \<and> boosted \<noteq> [] \<and> was \<noteq> NaN \<and> now \<noteq> NaN \<and> was \<noteq> Val 0
              then Some (num_div (Math_round (num_mul (num_mul (num_div (num_sub now was) was)
                           (Val 100)) (Val 10))) (Val 10))
              else None)
      | _ \<Rightarrow> None)"
    by (rule boostPercentage_plain)
next
  assume a: "digits ds \<and> decimalValue ds < 2 ^ 53"
  then have d: "digits ds" and b: "decimalValue ds < 2 ^ 53" by simp_all
  show "parseFloat (keepNumeric (utf16 ''+'' @ ds)) = Val (of_int (decimalValue ds))"
    using d b by (rule rawValue_signed(1))
  show "parseFloat (keepNumeric (utf16 ''-'' @ ds)) = Val (- of_int (decimalValue ds))"
    using d b by (rule rawValue_signed(2))
next
  assume nb: "newBoostCycle d s"
  then obtain p where p: "cyclePercentage d = Some p" using newBoostCycle_percentage by blast
  from cyclePercentage_truthy(5)[OF p] screenData_new(6)[OF p nb]
  show "\<exists>p. boostPercentage (detectOddsComparison (oddsOcr d)) = Some p
          \<and> filter isBoostAlert (sent (screenData d s)) =
              filter isBoostAlert (sent s) @
                [BoostAlert p (originalOdds (detectOddsComparison (oddsOcr d)))
                              (boostedOdds (detectOddsComparison (oddsOcr d)))]"
    by blast
next
  assume "\<not> cropFailed d \<and> \<not> cropTooSmall d
        \<and> boostPercentage (detectOddsComparison (oddsOcr d)) = None"
  then have n: "cyclePercentage d = None" by (simp add: cyclePercentage_def)
  show "consecutiveNumberFailures (screenData d s) = consecutiveNumberFailures s + 1"
    and "filter isBoostAlert (sent (screenData d s)) = filter isBoostAlert (sent s)"
    using n by (simp_all add: screenData_failed)
next
  show "screenData (d\<lparr> boostImage := img \<rparr>) s = screenData d s"
    by (rule screenData_ignores_boostImage)
next
  show "boostPercentage \<lparr> originalOdds = Some (utf16 ''+100''), boostedOdds = Some (utf16 ''+150''),
       detectedText = None \<rparr> = Some (Val 50)"
    by (rule example_raw_boost)
next
  show "calculateActualBoostPercentage (utf16 ''+100'') (utf16 ''+150'') = Val 25"
    by (rule example_decimal_boost)
next
  show "boostPercentage \<lparr> originalOdds = Some (utf16 ''+160''), boostedOdds = Some (utf16 ''+206''),
       detectedText = None \<rparr> = Some (toDouble (287 / 10))"
    by (rule example_raw_boost)
qed

lemma example_no_odds: "boostPercentage (detectOddsComparison (Some (utf16 ''no odds here''))) = None"
  by code_simp

lemma example_doubles:
  "toDouble (94 / 5) = Val (5291729562160333 / 281474976710656)"
  "toDouble (287 / 10) = Val (8078331831595827 / 281474976710656)"
  by code_simp+

theorem cycle_percentage_raw_odds_witness:
  "digits (utf16 ''950'') \<and> decimalValue (utf16 ''950'') < 2 ^ 53
 \<and> parseFloat (keepNumeric (utf16 ''-950'')) = Val (- 950)
 \<and> newBoostCycle (exampleCycle (utf16 ''Was +950 > Now +1129'')) (startup 0)
 \<and> filter isBoostAlert (sent (screenData (exampleCycle (utf16 ''Was +950 > Now +1129'')) (startup 0))) =
       [BoostAlert (Val (5291729562160333 / 281474976710656))
          (Some (utf16 ''+950'')) (Some (utf16 ''+1129''))]
 \<and> boostPercentage (detectOddsComparison (oddsOcr (exampleCycle (utf16 ''no odds here'')))) = None
 \<and> consecutiveNumberFailures (screenData (exampleCycle (utf16 ''no odds here'')) (startup 0)) = 1"
proof -
  let ?d = "exampleCycle (utf16 ''Was +950 > Now +1129'')"
  let ?f = "exampleCycle (utf16 ''no odds here'')"
  have dg: "digits (utf16 ''950'')" by code_simp
  have v: "decimalValue (utf16 ''950'') = 950" by code_simp
  have e: "utf16 ''-'' @ utf16 ''950'' = utf16 ''-950''" by (simp add: utf16_def)
  have nb: "newBoostCycle ?d (startup 0)" by (rule example_new)
  have f: "\<not> cropFailed ?f \<and> \<not> cropTooSmall ?f
        \<and> boostPercentage (detectOddsComparison (oddsOcr ?f)) = None"
    by (simp add: example_fields example_no_odds)
  have s0: "sent (startup 0) = []" "consecutiveNumberFailures (startup 0) = 0"
    by (simp_all add: startup_def)
  have p: "boostPercentage (detectOddsComparison (oddsOcr ?d)) = Some (toDouble (94 / 5))"
    using example_percentage by (simp add: cyclePercentage_def example_fields)
  have b: "decimalValue (utf16 ''950'') < 2 ^ 53" by (simp add: v)
  from cycle_percentage_raw_odds[of _ "utf16 ''950''" ?d "startup 0"] dg b nb p
  have "parseFloat (keepNumeric (utf16 ''-'' @ utf16 ''950'')) = Val (- of_int (decimalValue (utf16 ''950'')))"
    and "filter isBoostAlert (sent (screenData ?d (startup 0))) =
           filter isBoostAlert (sent (startup 0)) @
             [BoostAlert (toDouble (94 / 5)) (originalOdds (detectOddsComparison (oddsOcr ?d)))
                (boostedOdds (detectOddsComparison (oddsOcr ?d)))]"
    by auto
  moreover from cycle_percentage_raw_odds[of _ _ ?f "startup 0"] f
  have "consecutiveNumberFailures (screenData ?f (startup 0)) = consecutiveNumberFailures (startup 0) + 1"
    by blast
  ultimately show ?thesis
    using dg b nb f
    by (simp add: v e s0 example_odds example_fields example_doubles)
qed


section \<open>The percentage parser returns the largest candidate\<close>






subsection \<open>The maximum\<close>





subsection \<open>Texts without a digit\<close>
















section \<open>The odds pair of detectOdds is not validated\<close>

lemma wasNowFull_guard:
  "truthy preBoost \<or> truthy postBoost \<Longrightarrow> wasNowFull t preBoost postBoost = Go preBoost postBoost"
  by (auto simp add: wasNowFull_def split: option.splits list.splits)

lemma validatedPair_lower:
  "num_less (parseInt nowDigits) (parseInt wasDigits)
   \<Longrightarrow> validatedPair wasDigits nowDigits = Return None None"
  by (simp add: validatedPair_def)

lemma example_stages:
  "directOdds (utf16 ''Was +1200 Now +900'') None None
     = Go (Some (utf16 ''+1200'')) (Some (utf16 ''+900''))"
  "wasNowSeparator (utf16 ''Was +1200 Now +900'') (Some (utf16 ''+1200'')) (Some (utf16 ''+900''))
     = Go (Some (utf16 ''+1200'')) (Some (utf16 ''+900''))"
  "cleanText (utf16 ''Was +1200 Now +900'') = utf16 ''Was +1200 Now +900''"
  by code_simp+

text \<open>
  C1. On the text \<open>Was +1200 Now +900\<close> the parser returns the pair as read, before the
  boost \<open>+1200\<close> and after it \<open>+900\<close>, although 900 is less than 1200: the direct-odds
  stage fills both variables, and the stage that validates a Was/Now pair only runs
  while both are empty. The same pair comes back when a separator stands between the
  two (\<open>Was +1200 > Now +900\<close>, returned by the separator stage at once) and when the
  signs are missing (\<open>Was 1200 Now 900\<close>, returned by the simple Was stage). The
  validating branch itself, given the digits 1200 and 900, returns no pair, and so
  does the Wos stage on \<open>Wos 1200 900\<close>.
\<close>

theorem detectOdds_unvalidated_pair:
  "detectOdds (Some (utf16 ''Was +1200 Now +900''))
     = (Some (utf16 ''+1200''), Some (utf16 ''+900''))
 \<and> num_less (parseInt (stripSigns (utf16 ''+900''))) (parseInt (stripSigns (utf16 ''+1200'')))
 \<and> detectOdds (Some (utf16 ''Was +1200 > Now +900''))
     = (Some (utf16 ''+1200''), Some (utf16 ''+900''))
 \<and> detectOdds (Some (utf16 ''Was 1200 Now 900''))
     = (Some (utf16 ''+1200''), Some (utf16 ''+900''))
 \<and> validatedPair (utf16 ''1200'') (utf16 ''900'') = Return None None
 \<and> detectOdds (Some (utf16 ''Wos 1200 900'')) = (None, None)"
  by code_simp

end
